theory Spec2Isabelle
  imports Complex_Main "HOL-Library.Sublist" "HOL-Library.Product_Lexorder"
begin

section \<open>JSON values and the Python primitives applied to them\<close>

text \<open>
  \<^verbatim>\<open>server.py\<close> keeps the project in a JSON document and reads task updates out of the
  assistant's reply with \<^verbatim>\<open>json.loads\<close>. A decoded value is any JSON value; a Python
  \<^verbatim>\<open>float\<close> is a rational or one of the three non-finite values that \<^verbatim>\<open>json.loads\<close>
  accepts. A \<^verbatim>\<open>dict\<close> is the list of its items in insertion order, its keys distinct;
  \<open>map_of\<close> looks a key up.
\<close>

datatype py_float = Finite rat | PosInf | NegInf | NaN

datatype json =
    JNull
  | JBool bool
  | JInt int
  | JFloat py_float
  | JStr string
  | JArr "json list"
  | JObj "(string \<times> json) list"

text \<open>The exceptions the handlers can meet. \<^verbatim>\<open>JSONDecodeError\<close> is the only one the
  handler inside the loop of \<^verbatim>\<open>chat\<close> takes; \<^verbatim>\<open>RecursionError\<close> and a plain
  \<^verbatim>\<open>ValueError\<close> are what \<^verbatim>\<open>json.loads\<close> raises on a body nested too deeply and on an
  integer literal that is too long, \<^verbatim>\<open>UnicodeEncodeError\<close> what \<^verbatim>\<open>print\<close> raises on a
  line that the encoding of stdout cannot take. \<open>ServiceError\<close> stands for whatever the
  client library of the language model raises, with its message.\<close>

datatype exn =
    ValueError
  | TypeError
  | AttributeError
  | OverflowError
  | UnboundLocalError
  | JSONDecodeError
  | RecursionError
  | UnicodeEncodeError
  | ServiceError string

text \<open>Truth value of a JSON value in \<^verbatim>\<open>if task_id and new_week\<close>.\<close>

fun truthy :: "json \<Rightarrow> bool" where
  "truthy JNull = False"
| "truthy (JBool b) = b"
| "truthy (JInt n) = (n \<noteq> 0)"
| "truthy (JFloat f) = (f \<noteq> Finite 0)"
| "truthy (JStr s) = (s \<noteq> [])"
| "truthy (JArr xs) = (xs \<noteq> [])"
| "truthy (JObj d) = (d \<noteq> [])"

text \<open>\<^verbatim>\<open>d.get(k, default)\<close>.\<close>

definition dict_get :: "(string \<times> json) list \<Rightarrow> string \<Rightarrow> json \<Rightarrow> json" where
  "dict_get d k dflt = (case map_of d k of None \<Rightarrow> dflt | Some v \<Rightarrow> v)"

text \<open>Text is a list of code points below 256. \<open>isspace\<close> is the whitespace of
  \<^verbatim>\<open>str.strip()\<close> and of \<^verbatim>\<open>\s\<close> in a \<^verbatim>\<open>str\<close> pattern, in that range.\<close>

definition isspace :: "char \<Rightarrow> bool" where
  "isspace c = ((of_char c :: nat) \<in> {9, 10, 11, 12, 13, 28, 29, 30, 31, 32, 133, 160})"

definition strip :: "string \<Rightarrow> string" where
  "strip s = rev (dropWhile isspace (rev (dropWhile isspace s)))"

definition isdigit :: "char \<Rightarrow> bool" where
  "isdigit c = (48 \<le> (of_char c :: nat) \<and> (of_char c :: nat) \<le> 57)"

definition digit_val :: "char \<Rightarrow> nat" where
  "digit_val c = of_char c - 48"

text \<open>The digits of \<^verbatim>\<open>int(s)\<close> in base 10: one digit or more, a single underscore
  allowed between two digits.\<close>

fun int_digits :: "nat \<Rightarrow> string \<Rightarrow> nat option" where
  "int_digits acc [] = None"
| "int_digits acc [c] = (if isdigit c then Some (10 * acc + digit_val c) else None)"
| "int_digits acc (c # d # ds) =
     (if isdigit c then
        (if d = CHR ''_'' then int_digits (10 * acc + digit_val c) ds
         else int_digits (10 * acc + digit_val c) (d # ds))
      else None)"

text \<open>\<^verbatim>\<open>int(s)\<close> skips a narrower whitespace around the literal: the separators
  \<^verbatim>\<open>\x1c\<close> to \<^verbatim>\<open>\x1f\<close> are not part of it.\<close>

definition int_space :: "char \<Rightarrow> bool" where
  "int_space c = ((of_char c :: nat) \<in> {9, 10, 11, 12, 13, 32, 133, 160})"

text \<open>\<^verbatim>\<open>int(s)\<close> refuses a literal of more than \<^verbatim>\<open>sys.get_int_max_str_digits()\<close> digits
  with \<^verbatim>\<open>ValueError\<close>; the default is 4300, and every digit counts (leading zeros
  too), while underscores, the sign and the whitespace around do not.\<close>

definition int_max_str_digits :: nat where
  "int_max_str_digits = 4300"

definition int_of_str :: "string \<Rightarrow> int option" where
  "int_of_str s =
     (case rev (dropWhile int_space (rev (dropWhile int_space s))) of
        [] \<Rightarrow> None
      | c # cs \<Rightarrow>
          if length (filter isdigit (c # cs)) > int_max_str_digits then None
          else if c = CHR ''-'' then map_option (\<lambda>n. - int n) (int_digits 0 cs)
          else if c = CHR ''+'' then map_option int (int_digits 0 cs)
          else map_option int (int_digits 0 (c # cs)))"

text \<open>\<^verbatim>\<open>int(x)\<close> on a float rounds towards zero.\<close>

definition trunc :: "rat \<Rightarrow> int" where
  "trunc r = (if r < 0 then - \<lfloor>- r\<rfloor> else \<lfloor>r\<rfloor>)"

text \<open>\<^verbatim>\<open>int(v)\<close> on a decoded value: \<^verbatim>\<open>None\<close>, lists and dicts raise
  \<^verbatim>\<open>TypeError\<close>, a string that is no integer literal raises \<^verbatim>\<open>ValueError\<close>.\<close>

fun py_int :: "json \<Rightarrow> exn + int" where
  "py_int JNull = Inl TypeError"
| "py_int (JBool b) = Inr (if b then 1 else 0)"
| "py_int (JInt n) = Inr n"
| "py_int (JFloat (Finite r)) = Inr (trunc r)"
| "py_int (JFloat PosInf) = Inl OverflowError"
| "py_int (JFloat NegInf) = Inl OverflowError"
| "py_int (JFloat NaN) = Inl ValueError"
| "py_int (JStr s) = (case int_of_str s of None \<Rightarrow> Inl ValueError | Some n \<Rightarrow> Inr n)"
| "py_int (JArr xs) = Inl TypeError"
| "py_int (JObj d) = Inl TypeError"

text \<open>\<^verbatim>\<open>str(n)\<close> on an integer.\<close>

fun str_nat :: "nat \<Rightarrow> string" where
  "str_nat n =
     (if n < 10 then [''0123456789'' ! n]
      else str_nat (n div 10) @ [''0123456789'' ! (n mod 10)])"

declare str_nat.simps [simp del]

definition str_int :: "int \<Rightarrow> string" where
  "str_int i = (if i < 0 then CHR ''-'' # str_nat (nat (- i)) else str_nat (nat i))"

section \<open>The project state\<close>

text \<open>
  The records of \<^verbatim>\<open>get_default_data\<close>. A task's \<^verbatim>\<open>id\<close> is a string, its
  \<^verbatim>\<open>week\<close> an integer and \<^verbatim>\<open>completed\<close> a boolean; \<^verbatim>\<open>title\<close>, \<^verbatim>\<open>priority\<close>,
  \<^verbatim>\<open>figure\<close> and \<^verbatim>\<open>notes\<close> hold whatever JSON value an \<^verbatim>\<open>add\<close> update carried, so they
  are JSON values here. Dates are day numbers.
\<close>

record task =
  id' :: string
  title :: json
  week :: int
  completed :: bool
  priority :: json
  figure :: json
  notes' :: json

record figure_rec =
  fig_id :: int
  fig_title :: string
  status :: string

record chat_turn =
  role :: string
  content :: string
  timestamp :: string

record project_state =
  project_start :: int
  deadline :: int
  tasks :: "task list"
  figures :: "figure_rec list"
  results :: "json list"
  chat_history :: "chat_turn list"

text \<open>\<^verbatim>\<open>get_default_data\<close>; the two dates are 2026-01-17 and 2026-03-17 as days since
  1970-01-01.\<close>

definition default_tasks :: "task list" where
  "default_tasks =
     [\<lparr>id' = ''mag-quant'', title = JStr ''Quantify MAG Western blot (ImageJ)'', week = 1,
       completed = False, priority = JStr ''high'', figure = JInt 2, notes' = JStr ''''\<rparr>,
      \<lparr>id' = ''cut-sections'', title = JStr ''Cut IHC sections from fixed tissue'', week = 1,
       completed = False, priority = JStr ''medium'', figure = JInt 3, notes' = JStr ''''\<rparr>,
      \<lparr>id' = ''prep-massspec'', title = JStr ''Prepare brain samples for mass spec'', week = 1,
       completed = False, priority = JStr ''critical'', figure = JInt 2, notes' = JStr ''''\<rparr>,
      \<lparr>id' = ''send-massspec'', title = JStr ''Send samples to mass spec core'', week = 1,
       completed = False, priority = JStr ''critical'', figure = JInt 2, notes' = JStr ''BOTTLENECK''\<rparr>,
      \<lparr>id' = ''olig2-stain'', title = JStr ''Olig2 or CC1 IHC staining'', week = 2,
       completed = False, priority = JStr ''high'', figure = JInt 3, notes' = JStr ''''\<rparr>,
      \<lparr>id' = ''degenerotag'', title = JStr ''DegeneroTag / FluoroJade staining'', week = 2,
       completed = False, priority = JStr ''high'', figure = JInt 3, notes' = JStr ''''\<rparr>,
      \<lparr>id' = ''ihc-imaging'', title = JStr ''Image all IHC sections'', week = 3,
       completed = False, priority = JStr ''medium'', figure = JInt 3, notes' = JStr ''''\<rparr>,
      \<lparr>id' = ''ihc-quant-start'', title = JStr ''Begin IHC quantification'', week = 3,
       completed = False, priority = JStr ''medium'', figure = JInt 3, notes' = JStr ''''\<rparr>,
      \<lparr>id' = ''recovery-plp'', title = JStr ''Western blot: PLP on Recovery tissue'', week = 4,
       completed = False, priority = JStr ''high'', figure = JInt 4, notes' = JStr ''''\<rparr>,
      \<lparr>id' = ''recovery-mag'', title = JStr ''Western blot: MAG on Recovery tissue'', week = 4,
       completed = False, priority = JStr ''high'', figure = JInt 4, notes' = JStr ''''\<rparr>,
      \<lparr>id' = ''recovery-quant'', title = JStr ''Quantify recovery Western blots'', week = 4,
       completed = False, priority = JStr ''medium'', figure = JInt 4, notes' = JStr ''''\<rparr>,
      \<lparr>id' = ''recovery-stats'', title = JStr ''Statistics: Non-SD vs SD vs Recovery'', week = 4,
       completed = False, priority = JStr ''medium'', figure = JInt 4, notes' = JStr ''''\<rparr>,
      \<lparr>id' = ''ihc-quant-complete'', title = JStr ''Complete all IHC quantification'', week = 5,
       completed = False, priority = JStr ''high'', figure = JInt 3, notes' = JStr ''''\<rparr>,
      \<lparr>id' = ''massspec-analyze'', title = JStr ''Analyze mass spec results'', week = 5,
       completed = False, priority = JStr ''high'', figure = JInt 2, notes' = JStr ''''\<rparr>,
      \<lparr>id' = ''all-stats'', title = JStr ''Statistical analysis on all datasets'', week = 5,
       completed = False, priority = JStr ''high'', figure = JNull, notes' = JStr ''''\<rparr>,
      \<lparr>id' = ''fig1-final'', title = JStr ''Finalize Figure 1: EM Phenotype'', week = 6,
       completed = False, priority = JStr ''high'', figure = JInt 1, notes' = JStr ''''\<rparr>,
      \<lparr>id' = ''fig2-final'', title = JStr ''Finalize Figure 2: Proteins + Lipids'', week = 6,
       completed = False, priority = JStr ''high'', figure = JInt 2, notes' = JStr ''''\<rparr>,
      \<lparr>id' = ''fig3-final'', title = JStr ''Finalize Figure 3: Cellular Response'', week = 7,
       completed = False, priority = JStr ''high'', figure = JInt 3, notes' = JStr ''''\<rparr>,
      \<lparr>id' = ''fig4-final'', title = JStr ''Finalize Figure 4: Recovery Failure'', week = 7,
       completed = False, priority = JStr ''high'', figure = JInt 4, notes' = JStr ''''\<rparr>,
      \<lparr>id' = ''write-legends'', title = JStr ''Write figure legends'', week = 7,
       completed = False, priority = JStr ''medium'', figure = JNull, notes' = JStr ''''\<rparr>,
      \<lparr>id' = ''write-manuscript'', title = JStr ''Complete manuscript draft'', week = 8,
       completed = False, priority = JStr ''critical'', figure = JNull, notes' = JStr ''''\<rparr>,
      \<lparr>id' = ''coauthor-review'', title = JStr ''Circulate to co-authors'', week = 8,
       completed = False, priority = JStr ''high'', figure = JNull, notes' = JStr ''''\<rparr>,
      \<lparr>id' = ''submit'', title = JStr ''SUBMIT PAPER'', week = 8,
       completed = False, priority = JStr ''critical'', figure = JNull, notes' = JStr ''''\<rparr>]"

definition get_default_data :: project_state where
  "get_default_data =
     \<lparr>project_start = 20470,
      deadline = 20529,
      tasks = default_tasks,
      figures =
     [\<lparr>fig_id = 1, fig_title = ''EM Phenotype'', status = ''complete''\<rparr>,
      \<lparr>fig_id = 2, fig_title = ''Proteins + Lipids'', status = ''in_progress''\<rparr>,
      \<lparr>fig_id = 3, fig_title = ''Cellular Response'', status = ''not_started''\<rparr>,
      \<lparr>fig_id = 4, fig_title = ''Recovery Failure'', status = ''partial''\<rparr>],
      results = [],
      chat_history = []\<rparr>"

text \<open>\<^verbatim>\<open>max(1, min(8, (days_passed // 7) + 1))\<close>, with \<^verbatim>\<open>days_passed\<close> the whole days
  between the project start and today.\<close>

definition current_week_of :: "int \<Rightarrow> int \<Rightarrow> int" where
  "current_week_of today start = max 1 (min 8 ((today - start) div 7 + 1))"

text \<open>The range of the project's weeks, as an invariant of the task list.\<close>

definition weeks_in_range :: "task list \<Rightarrow> bool" where
  "weeks_in_range ts = list_all (\<lambda>t. 1 \<le> week t \<and> week t \<le> 8) ts"

section \<open>Applying one task update\<close>

text \<open>What the loop prints.\<close>

datatype log_entry =
    Moved json json
  | Completed json
  | Added json
  | Deleted json
  | FailedParse string
  | Traceback exn

text \<open>\<^verbatim>\<open>task['id'] == task_id\<close>: a string equals a decoded value only when that value is
  the same string.\<close>

definition id_matches :: "task \<Rightarrow> json \<Rightarrow> bool" where
  "id_matches t task_id = (task_id = JStr (id' t))"

text \<open>The loop of \<^verbatim>\<open>move\<close>: the first task with the id gets \<^verbatim>\<open>int(new_week)\<close>, which is
  evaluated only once a task matched.\<close>

fun move_loop :: "json \<Rightarrow> json \<Rightarrow> task list \<Rightarrow> exn + (task list \<times> log_entry list)" where
  "move_loop task_id new_week [] = Inr ([], [])"
| "move_loop task_id new_week (t # ts) =
     (if id_matches t task_id then
        (case py_int new_week of
           Inl e \<Rightarrow> Inl e
         | Inr n \<Rightarrow> Inr (t\<lparr>week := n\<rparr> # ts, [Moved task_id new_week]))
      else
        (case move_loop task_id new_week ts of
           Inl e \<Rightarrow> Inl e
         | Inr (ts', out) \<Rightarrow> Inr (t # ts', out)))"

text \<open>The loop of \<^verbatim>\<open>complete\<close>.\<close>

fun complete_loop :: "json \<Rightarrow> task list \<Rightarrow> task list \<times> log_entry list" where
  "complete_loop task_id [] = ([], [])"
| "complete_loop task_id (t # ts) =
     (if id_matches t task_id then (t\<lparr>completed := True\<rparr> # ts, [Completed task_id])
      else (case complete_loop task_id ts of (ts', out) \<Rightarrow> (t # ts', out)))"

text \<open>
  One decoded update, as the body of the \<^verbatim>\<open>try\<close> handles it after \<^verbatim>\<open>json.loads\<close>:
  \<open>now\<close> is \<^verbatim>\<open>int(datetime.now().timestamp())\<close> as read by this update, \<open>current_week\<close>
  the week computed at the start of the request. The result is the task list as the
  branch leaves it together with the line that the branch prints as its last statement
  (printing it, which can fail, is the next step of \<open>process_matches\<close>), or the exception
  that the branch raises before that.
\<close>

definition apply_update ::
  "int \<Rightarrow> int \<Rightarrow> json \<Rightarrow> task list \<Rightarrow> exn + (task list \<times> log_entry list)" where
  "apply_update now current_week update ts =
     (case update of
        JObj d \<Rightarrow>
          (let action = dict_get d ''action'' (JStr '''') in
           if action = JStr ''move'' then
             (let task_id = dict_get d ''task_id'' JNull;
                  new_week = dict_get d ''new_week'' JNull
              in if truthy task_id \<and> truthy new_week then move_loop task_id new_week ts
                 else Inr (ts, []))
           else if action = JStr ''complete'' then
             (let task_id = dict_get d ''task_id'' JNull
              in if truthy task_id then Inr (complete_loop task_id ts) else Inr (ts, []))
           else if action = JStr ''add'' then
             (let new_id = ''task-'' @ str_int now in
              case py_int (dict_get d ''week'' (JInt current_week)) of
                Inl e \<Rightarrow> Inl e
              | Inr w \<Rightarrow>
                  (let new_task =
                     \<lparr>id' = new_id,
                      title = dict_get d ''title'' (JStr ''New Task''),
                      week = w,
                      completed = False,
                      priority = dict_get d ''priority'' (JStr ''medium''),
                      figure = dict_get d ''figure'' JNull,
                      notes' = dict_get d ''reason'' (JStr '''')\<rparr>
                   in Inr (ts @ [new_task], [Added (title new_task)])))
           else if action = JStr ''delete'' then
             (let task_id = dict_get d ''task_id'' JNull
              in if truthy task_id
                 then Inr (filter (\<lambda>t. \<not> id_matches t task_id) ts, [Deleted task_id])
                 else Inr (ts, []))
           else Inr (ts, []))
      | _ \<Rightarrow> Inl AttributeError)"

section \<open>Finding the task update blocks\<close>

text \<open>
  \<^verbatim>\<open>re.findall(r'```task_update\s*\n?(.*?)\n?```', assistant_message, re.DOTALL)\<close>.
  After the opening marker \<^verbatim>\<open>\s*\<close> takes all the whitespace there is (and leaves no
  newline to the first \<^verbatim>\<open>\n?\<close>); the lazy group then ends at the first position where
  \<^verbatim>\<open>\n```\<close> or \<^verbatim>\<open>```\<close> follows. If no fence follows, no shorter run of whitespace
  helps, since whitespace holds no backquote. \<open>lazy_body\<close> returns the group and the
  text after the closing fence.
\<close>

definition open_marker :: string where
  "open_marker = ''```task_update''"

definition fence :: string where
  "fence = ''```''"

fun lazy_body :: "string \<Rightarrow> (string \<times> string) option" where
  "lazy_body [] = None"
| "lazy_body (c # cs) =
     (if prefix (CHR ''\<newline>'' # fence) (c # cs) then Some ([], drop 4 (c # cs))
      else if prefix fence (c # cs) then Some ([], drop 3 (c # cs))
      else map_option (\<lambda>(g, r). (c # g, r)) (lazy_body cs))"

text \<open>A match of the whole pattern at the start of the text.\<close>

definition match_here :: "string \<Rightarrow> (string \<times> string) option" where
  "match_here s =
     (if prefix open_marker s
      then lazy_body (dropWhile isspace (drop (length open_marker) s))
      else None)"

lemma lazy_body_shorter: "lazy_body s = Some (g, r) \<Longrightarrow> length r < length s"
  by (induction s arbitrary: g r) (auto split: if_splits)

lemma match_here_shorter: "match_here s = Some (g, r) \<Longrightarrow> length r < length s"
proof -
  assume m: "match_here s = Some (g, r)"
  let ?rest = "dropWhile isspace (drop (length open_marker) s)"
  from m have "lazy_body ?rest = Some (g, r)"
    by (simp add: match_here_def split: if_splits)
  then have "length r < length ?rest"
    by (rule lazy_body_shorter)
  also have "length ?rest \<le> length (drop (length open_marker) s)"
    by (rule length_dropWhile_le)
  also have "\<dots> \<le> length s"
    by simp
  finally show ?thesis .
qed

text \<open>The matches from left to right, not overlapping: the groups, and the text with
  the matches removed (\<^verbatim>\<open>re.sub(pattern, '', assistant_message)\<close>).\<close>

function findall :: "string \<Rightarrow> string list" where
  "findall [] = []"
| "findall (c # cs) =
     (case match_here (c # cs) of
        Some (g, r) \<Rightarrow> g # findall r
      | None \<Rightarrow> findall cs)"
  by pat_completeness auto
termination
  by (relation "measure length") (auto dest: match_here_shorter)

function sub_blocks :: "string \<Rightarrow> string" where
  "sub_blocks [] = []"
| "sub_blocks (c # cs) =
     (case match_here (c # cs) of
        Some (g, r) \<Rightarrow> sub_blocks r
      | None \<Rightarrow> c # sub_blocks cs)"
  by pat_completeness auto
termination
  by (relation "measure length") (auto dest: match_here_shorter)

text \<open>A block as the assistant is told to write it: the marker, whitespace, a body and
  the closing fence. Of a body without backquotes the pattern captures all but one
  final newline.\<close>

definition block :: "string \<Rightarrow> string \<Rightarrow> string" where
  "block ws body = open_marker @ ws @ body @ fence"

definition drop_final_newline :: "string \<Rightarrow> string" where
  "drop_final_newline s = (if s \<noteq> [] \<and> last s = CHR ''\<newline>'' then butlast s else s)"

section \<open>The chat request\<close>

text \<open>
  What a request reads from outside the store: the environment variable and the lines
  of \<^verbatim>\<open>~/.env\<close> (\<open>None\<close> when the file does not exist), the outcome of the call to the
  language model (the text of the reply, or the exception raised between building the
  client and reading \<^verbatim>\<open>response.content[0].text\<close>), the clock, stdout, and two
  functions of the Python library: \<^verbatim>\<open>json.loads\<close> (the decoded value, or the exception
  it raises: \<^verbatim>\<open>JSONDecodeError\<close> for a text that is no JSON, and others such as
  \<^verbatim>\<open>RecursionError\<close>) and \<^verbatim>\<open>str(e)\<close>.
  \<open>clock E i\<close> is \<^verbatim>\<open>int(datetime.now().timestamp())\<close> as read while the \<open>i\<close>-th block
  of the reply is processed. \<open>print_raises E line\<close> is the exception that \<^verbatim>\<open>print\<close> raises
  on that line, \<open>None\<close> when the line is written: a line that the encoding of stdout
  cannot take (a lone surrogate on UTF-8, any letter beyond ASCII on an ASCII stdout)
  raises \<^verbatim>\<open>UnicodeEncodeError\<close>.
\<close>

record env =
  environ_key :: "string option"
  dotenv :: "string list option"
  model_reply :: "exn + string"
  json_loads :: "string \<Rightarrow> exn + json"
  str_exn :: "exn \<Rightarrow> string"
  print_raises :: "log_entry \<Rightarrow> exn option"
  today :: int
  clock :: "nat \<Rightarrow> int"
  stamp_user :: string
  stamp_assistant :: string

record chat_response =
  response :: string
  error :: bool
  task_updates :: "json list"

text \<open>\<^verbatim>\<open>s.strip('"\'')\<close>.\<close>

definition isquote :: "char \<Rightarrow> bool" where
  "isquote c = (c = CHR 0x22 \<or> c = CHR 0x27)"

definition strip_quotes :: "string \<Rightarrow> string" where
  "strip_quotes s = rev (dropWhile isquote (rev (dropWhile isquote s)))"

text \<open>The loop over the lines of \<^verbatim>\<open>~/.env\<close>: the first line that starts with the key
  decides; \<^verbatim>\<open>split('=', 1)[1]\<close> is what follows the first equals sign.\<close>

fun scan_dotenv :: "string list \<Rightarrow> string option" where
  "scan_dotenv [] = None"
| "scan_dotenv (line # lines) =
     (if prefix ''ANTHROPIC_API_KEY='' line
      then Some (strip_quotes (tl (dropWhile (\<lambda>c. c \<noteq> CHR ''='') (strip line))))
      else scan_dotenv lines)"

definition falsy_key :: "string option \<Rightarrow> bool" where
  "falsy_key k = (k = None \<or> k = Some [])"

definition resolve_api_key :: "string option \<Rightarrow> string list option \<Rightarrow> string option" where
  "resolve_api_key environ file =
     (if falsy_key environ then
        (case file of
           None \<Rightarrow> environ
         | Some lines \<Rightarrow> (case scan_dotenv lines of None \<Rightarrow> environ | Some k \<Rightarrow> Some k))
      else environ)"

text \<open>\<^verbatim>\<open>print\<close> of the lines of one step, in their order: the first exception ends
  it.\<close>

fun print_lines :: "env \<Rightarrow> log_entry list \<Rightarrow> exn option" where
  "print_lines E [] = None"
| "print_lines E (l # ls) =
     (case print_raises E l of None \<Rightarrow> print_lines E ls | Some e \<Rightarrow> Some e)"

text \<open>
  The loop over the matches. \<open>apply_update\<close> gives the change of a decoded update and
  the line its branch prints as its last statement; the line is printed here. A body
  on which \<^verbatim>\<open>json.loads\<close> raises \<^verbatim>\<open>JSONDecodeError\<close> is reported and skipped. Every
  other exception leaves the loop: another exception of \<^verbatim>\<open>json.loads\<close>, an exception
  of the update, and an exception of \<^verbatim>\<open>print\<close> (also inside the handler). The result is
  the outcome (the task list and \<^verbatim>\<open>task_updates\<close>, or the exception) and what was
  printed.
\<close>

fun process_matches ::
  "env \<Rightarrow> int \<Rightarrow> nat \<Rightarrow> string list \<Rightarrow> task list \<Rightarrow> json list \<Rightarrow> log_entry list
    \<Rightarrow> (exn + task list \<times> json list) \<times> log_entry list" where
  "process_matches E current_week i [] ts ups out = (Inr (ts, ups), out)"
| "process_matches E current_week i (m # ms) ts ups out =
     (case json_loads E (strip m) of
        Inl e \<Rightarrow>
          if e = JSONDecodeError then
            (case print_lines E [FailedParse m] of
               None \<Rightarrow> process_matches E current_week (Suc i) ms ts ups (out @ [FailedParse m])
             | Some e' \<Rightarrow> (Inl e', out))
          else (Inl e, out)
      | Inr update \<Rightarrow>
          (case apply_update (clock E i) current_week update ts of
             Inl e \<Rightarrow> (Inl e, out)
           | Inr (ts', printed) \<Rightarrow>
               (case print_lines E printed of
                  None \<Rightarrow>
                    process_matches E current_week (Suc i) ms ts' (ups @ [update]) (out @ printed)
                | Some e' \<Rightarrow> (Inl e', out))))"

text \<open>
  \<^verbatim>\<open>chat\<close>, from the resolution of the credential on. The first component of the result
  is the store as it is on disk after the request: \<^verbatim>\<open>save_project_data\<close> is reached only
  when nothing was raised, so every other path leaves the loaded store as it was. The
  text sent to the model is not part of the model, since the reply is an input here.
\<close>

definition error_response :: "env \<Rightarrow> exn \<Rightarrow> chat_response" where
  "error_response E e =
     \<lparr>response = ''Error communicating with AI: '' @ str_exn E e,
      error = True,
      task_updates = []\<rparr>"

definition chat ::
  "env \<Rightarrow> project_state \<Rightarrow> string \<Rightarrow> project_state \<times> chat_response \<times> log_entry list" where
  "chat E data user_message =
     (let current_week = current_week_of (today E) (project_start data);
          api_key = resolve_api_key (environ_key E) (dotenv E)
      in if falsy_key api_key then
           (data,
            \<lparr>response = ''API key not found. Please set ANTHROPIC_API_KEY in your ~/.env file.'',
             error = True,
             task_updates = []\<rparr>,
            [])
         else
           (case model_reply E of
              Inl e \<Rightarrow> (data, error_response E e, [Traceback e])
            | Inr assistant_message \<Rightarrow>
                (let data1 = data\<lparr>chat_history := chat_history data @
                       [\<lparr>role = ''user'', content = user_message, timestamp = stamp_user E\<rparr>,
                        \<lparr>role = ''assistant'', content = assistant_message,
                         timestamp = stamp_assistant E\<rparr>]\<rparr>
                 in case process_matches E current_week 0 (findall assistant_message)
                           (tasks data1) [] [] of
                      (Inl e, out) \<Rightarrow> (data, error_response E e, out @ [Traceback e])
                    | (Inr (ts', ups), out) \<Rightarrow>
                        (data1\<lparr>tasks := ts'\<rparr>,
                         \<lparr>response = strip (sub_blocks assistant_message),
                          error = False,
                          task_updates = ups\<rparr>,
                         out))))"

section \<open>Auto-adjust\<close>

text \<open>\<^verbatim>\<open>priority_order.get(t['priority'], 3)\<close>: a list or a dict is not hashable, so the
  lookup raises \<^verbatim>\<open>TypeError\<close>; any other value that is no key of the table has rank 3.\<close>

definition priority_order :: "(string \<times> int) list" where
  "priority_order = [(''critical'', 0), (''high'', 1), (''medium'', 2), (''low'', 3)]"

fun priority_rank :: "json \<Rightarrow> exn + int" where
  "priority_rank (JStr s) = Inr (case map_of priority_order s of None \<Rightarrow> 3 | Some r \<Rightarrow> r)"
| "priority_rank (JArr xs) = Inl TypeError"
| "priority_rank (JObj d) = Inl TypeError"
| "priority_rank v = Inr 3"

text \<open>The values that can be looked up in a \<^verbatim>\<open>dict\<close>.\<close>

fun hashable :: "json \<Rightarrow> bool" where
  "hashable (JArr xs) = False"
| "hashable (JObj d) = False"
| "hashable v = True"

text \<open>\<^verbatim>\<open>incomplete.sort(key=...)\<close> computes the key of every element first, then sorts
  stably by \<^verbatim>\<open>(week, rank)\<close>.\<close>

fun sort_keys :: "task list \<Rightarrow> exn + (int \<times> int) list" where
  "sort_keys [] = Inr []"
| "sort_keys (t # ts) =
     (case priority_rank (priority t) of
        Inl e \<Rightarrow> Inl e
      | Inr r \<Rightarrow> (case sort_keys ts of Inl e \<Rightarrow> Inl e | Inr ks \<Rightarrow> Inr ((week t, r) # ks)))"

definition sort_incomplete :: "task list \<Rightarrow> exn + task list" where
  "sort_incomplete xs =
     (case sort_keys xs of
        Inl e \<Rightarrow> Inl e
      | Inr ks \<Rightarrow> Inr (map snd (sort_key fst (zip ks xs))))"

text \<open>The inner loop \<^verbatim>\<open>for t in data['tasks']\<close>: the first task with the id gets the
  week.\<close>

fun set_week_first :: "string \<Rightarrow> int \<Rightarrow> task list \<Rightarrow> task list" where
  "set_week_first i w [] = []"
| "set_week_first i w (t # ts) =
     (if id' t = i then t\<lparr>week := w\<rparr> # ts else t # set_week_first i w ts)"

text \<open>The outer loop over the sorted incomplete tasks, with the running \<^verbatim>\<open>week\<close> and
  \<^verbatim>\<open>count\<close>.\<close>

fun spread :: "int \<Rightarrow> task list \<Rightarrow> int \<Rightarrow> int \<Rightarrow> task list \<Rightarrow> task list" where
  "spread tasks_per_week [] wk count ts = ts"
| "spread tasks_per_week (task # rest) wk count ts =
     (if \<exists>t \<in> set ts. id' t = id' task then
        (let wk' = (if count \<ge> tasks_per_week \<and> wk < 8 then wk + 1 else wk);
             count' = (if count \<ge> tasks_per_week \<and> wk < 8 then 0 else count)
         in spread tasks_per_week rest wk' (count' + 1) (set_week_first (id' task) wk' ts))
      else spread tasks_per_week rest wk count ts)"

text \<open>\<^verbatim>\<open>auto_adjust\<close>: \<open>now\<close> is the day number of \<^verbatim>\<open>datetime.now()\<close>. The result is
  the saved store and \<^verbatim>\<open>current_week\<close>, as in the response.\<close>

definition auto_adjust :: "int \<Rightarrow> project_state \<Rightarrow> exn + (project_state \<times> int)" where
  "auto_adjust now data =
     (let days_passed = now - project_start data;
          current_week = max 1 (min 8 (days_passed div 7 + 1));
          ts1 = map (\<lambda>t. if \<not> completed t \<and> week t < current_week
                          then t\<lparr>week := current_week\<rparr> else t) (tasks data);
          incomplete = filter (\<lambda>t. \<not> completed t \<and> week t \<ge> current_week) ts1;
          weeks_remaining = 8 - current_week + 1
      in if weeks_remaining > 0 \<and> length incomplete > 0 then
           (case sort_incomplete incomplete of
              Inl e \<Rightarrow> Inl e
            | Inr sorted_tasks \<Rightarrow>
                (let tasks_per_week = max 3 (int (length incomplete) div weeks_remaining)
                 in Inr (data\<lparr>tasks := spread tasks_per_week sorted_tasks current_week 0 ts1\<rparr>,
                         current_week)))
         else Inr (data\<lparr>tasks := ts1\<rparr>, current_week))"

section \<open>Updating one task\<close>

text \<open>The body of \<^verbatim>\<open>PATCH /api/task/<task_id>\<close> is a partial task: the fields it holds
  replace those of the task (\<^verbatim>\<open>task.update(updates)\<close>).\<close>

record task_patch =
  p_id :: "string option"
  p_title :: "json option"
  p_week :: "int option"
  p_completed :: "bool option"
  p_priority :: "json option"
  p_figure :: "json option"
  p_notes :: "json option"

definition dict_update :: "task \<Rightarrow> task_patch \<Rightarrow> task" where
  "dict_update t u =
     \<lparr>id' = (case p_id u of None \<Rightarrow> id' t | Some v \<Rightarrow> v),
      title = (case p_title u of None \<Rightarrow> title t | Some v \<Rightarrow> v),
      week = (case p_week u of None \<Rightarrow> week t | Some v \<Rightarrow> v),
      completed = (case p_completed u of None \<Rightarrow> completed t | Some v \<Rightarrow> v),
      priority = (case p_priority u of None \<Rightarrow> priority t | Some v \<Rightarrow> v),
      figure = (case p_figure u of None \<Rightarrow> figure t | Some v \<Rightarrow> v),
      notes' = (case p_notes u of None \<Rightarrow> notes' t | Some v \<Rightarrow> v)\<rparr>"

text \<open>The loop of \<^verbatim>\<open>update_task\<close>. \<open>bound\<close> is the value of the loop variable
  \<^verbatim>\<open>task\<close>: \<open>None\<close> until the loop has bound it, and still bound after the loop.\<close>

fun update_loop ::
  "string \<Rightarrow> task_patch \<Rightarrow> task option \<Rightarrow> task list \<Rightarrow> task list \<times> task option" where
  "update_loop task_id updates bound [] = ([], bound)"
| "update_loop task_id updates bound (t # ts) =
     (if id' t = task_id then
        (let t' = dict_update t updates in (t' # ts, Some t'))
      else (case update_loop task_id updates (Some t) ts of (ts', b) \<Rightarrow> (t # ts', b)))"

text \<open>\<^verbatim>\<open>update_task\<close>: the saved store and the \<^verbatim>\<open>task\<close> field of the response. Reading
  the unbound \<^verbatim>\<open>task\<close> in the last line raises \<^verbatim>\<open>UnboundLocalError\<close>.\<close>

definition update_task ::
  "string \<Rightarrow> task_patch \<Rightarrow> project_state \<Rightarrow> exn + (project_state \<times> task)" where
  "update_task task_id updates data =
     (case update_loop task_id updates None (tasks data) of
        (ts', None) \<Rightarrow> Inl UnboundLocalError
      | (ts', Some task) \<Rightarrow> Inr (data\<lparr>tasks := ts'\<rparr>, task))"

section \<open>Example requests\<close>

text \<open>\<^verbatim>\<open>str(e)\<close> for the exceptions that occur in the examples below (no other one
  does).\<close>

fun example_str_exn :: "exn \<Rightarrow> string" where
  "example_str_exn (ServiceError m) = m"
| "example_str_exn ValueError =
     ''invalid literal for int() with base 10: '' @ [CHR 0x27] @ ''soon'' @ [CHR 0x27]"
| "example_str_exn RecursionError =
     ''maximum recursion depth exceeded while decoding a JSON array from a unicode string''"
| "example_str_exn e = ''''"

text \<open>Bodies of task update blocks, with the values \<^verbatim>\<open>json.loads\<close> gives for them. A
  text of a thousand opening brackets makes the decoder run into the recursion limit;
  any other text that is not in the table stands for one that is no JSON.\<close>

definition update_move_soon :: json where
  "update_move_soon =
     JObj [(''action'', JStr ''move''), (''task_id'', JStr ''mag-quant''),
           (''new_week'', JStr ''soon'')]"

definition update_complete_cut :: json where
  "update_complete_cut = JObj [(''action'', JStr ''complete''), (''task_id'', JStr ''cut-sections'')]"

definition update_complete_mag :: json where
  "update_complete_mag = JObj [(''action'', JStr ''complete''), (''task_id'', JStr ''mag-quant'')]"

definition update_delete_cut :: json where
  "update_delete_cut = JObj [(''action'', JStr ''delete''), (''task_id'', JStr ''cut-sections'')]"

definition update_add_antibodies :: json where
  "update_add_antibodies =
     JObj [(''action'', JStr ''add''), (''title'', JStr ''Order antibodies''),
           (''priority'', JStr ''urgent'')]"

definition update_add_microscope :: json where
  "update_add_microscope =
     JObj [(''action'', JStr ''add''), (''title'', JStr ''Book microscope''), (''week'', JInt 4)]"

definition update_archive :: json where
  "update_archive = JObj [(''action'', JStr ''archive''), (''task_id'', JStr ''mag-quant'')]"

definition update_complete_missing :: json where
  "update_complete_missing =
     JObj [(''action'', JStr ''complete''), (''task_id'', JStr ''does-not-exist'')]"

definition deep_body :: string where
  "deep_body = CHR ''['' # replicate 999 (CHR ''['')"

definition example_table :: "(string \<times> json) list" where
  \<open>example_table =
     [(''{"action": "move", "task_id": "mag-quant", "new_week": "soon"}'', update_move_soon),
      (''{"action": "complete", "task_id": "cut-sections"}'', update_complete_cut),
      (''{"action": "complete", "task_id": "mag-quant"}'', update_complete_mag),
      (''{"action": "delete", "task_id": "cut-sections"}'', update_delete_cut),
      (''{"action": "add", "title": "Order antibodies", "priority": "urgent"}'',
       update_add_antibodies),
      (''{"action": "add", "title": "Book microscope", "week": 4}'', update_add_microscope),
      (''{"action": "archive", "task_id": "mag-quant"}'', update_archive),
      (''{"action": "complete", "task_id": "does-not-exist"}'', update_complete_missing)]\<close>

definition example_loads :: "string \<Rightarrow> exn + json" where
  "example_loads s =
     (if length s = 1000 \<and> list_all (\<lambda>c. c = CHR ''['') s then Inl RecursionError
      else case map_of example_table s of None \<Rightarrow> Inl JSONDecodeError | Some v \<Rightarrow> Inr v)"

text \<open>A request on 2026-02-03 at 09:00:00 UTC with a key in the environment; every
  reading of the clock falls into the same second, and stdout takes every line.\<close>

definition example_env :: "exn + string \<Rightarrow> env" where
  "example_env reply =
     \<lparr>environ_key = Some ''sk-ant-example'',
      dotenv = None,
      model_reply = reply,
      json_loads = example_loads,
      str_exn = example_str_exn,
      print_raises = (\<lambda>line. None),
      today = 20487,
      clock = (\<lambda>i. 1770109200),
      stamp_user = ''2026-02-03T09:00:00.120000'',
      stamp_assistant = ''2026-02-03T09:00:00.480000''\<rparr>"

definition reply_move_soon :: string where
  \<open>reply_move_soon =
     ''Rescheduling.\<newline>```task_update\<newline>{"action": "move", "task_id": "mag-quant", "new_week": "soon"}\<newline>```\<newline>```task_update\<newline>{"action": "complete", "task_id": "cut-sections"}\<newline>```\<newline>Both changes are in.''\<close>

definition reply_two_adds :: string where
  \<open>reply_two_adds =
     ''```task_update\<newline>{"action": "add", "title": "Order antibodies", "priority": "urgent"}\<newline>```\<newline>```task_update\<newline>{"action": "add", "title": "Book microscope", "week": 4}\<newline>```\<newline>Added both.''\<close>

definition reply_not_applied :: string where
  \<open>reply_not_applied =
     ''```task_update\<newline>{"action": "archive", "task_id": "mag-quant"}\<newline>```\<newline>```task_update\<newline>{"action": "complete", "task_id": "does-not-exist"}\<newline>```\<newline>Done.''\<close>

definition reply_malformed_middle :: string where
  \<open>reply_malformed_middle =
     ''```task_update\<newline>{"action": "complete", "task_id": "mag-quant"}\<newline>```\<newline>```task_update\<newline>{"action": "complete", "task_id": \<newline>```\<newline>```task_update\<newline>{"action": "delete", "task_id": "cut-sections"}\<newline>```''\<close>

text \<open>Three blocks, the second with a body of a thousand opening brackets.\<close>

definition reply_deep_middle :: string where
  \<open>reply_deep_middle =
     block ''\<newline>'' ''{"action": "complete", "task_id": "mag-quant"}\<newline>'' @ ''\<newline>'' @
     block ''\<newline>'' (deep_body @ ''\<newline>'') @ ''\<newline>'' @
     block ''\<newline>'' ''{"action": "delete", "task_id": "cut-sections"}\<newline>''\<close>

lemmas ex_defs = example_env_def example_loads_def example_table_def update_move_soon_def update_complete_cut_def
  update_complete_mag_def update_delete_cut_def update_add_antibodies_def update_add_microscope_def
  update_archive_def update_complete_missing_def
lemmas scan_defs = match_here_def open_marker_def fence_def isspace_def strip_def

definition update_move_99 :: json where
  "update_move_99 =
     JObj [(''action'', JStr ''move''), (''task_id'', JStr ''mag-quant''), (''new_week'', JInt 99)]"

definition mag_quant :: task where
  "mag_quant =
     \<lparr>id' = ''mag-quant'', title = JStr ''Quantify MAG Western blot (ImageJ)'', week = 1,
      completed = False, priority = JStr ''high'', figure = JInt 2, notes' = JStr ''''\<rparr>"

definition cut_sections :: task where
  "cut_sections =
     \<lparr>id' = ''cut-sections'', title = JStr ''Cut IHC sections from fixed tissue'', week = 1,
      completed = False, priority = JStr ''medium'', figure = JInt 3, notes' = JStr ''''\<rparr>"

lemmas task_defs = mag_quant_def cut_sections_def

section \<open>Properties of \<^verbatim>\<open>update_task\<close>\<close>

lemma update_loop_no_match:
  "\<forall>t \<in> set ts. id' t \<noteq> task_id \<Longrightarrow>
   update_loop task_id updates bound ts = (ts, if ts = [] then bound else Some (last ts))"
  by (induction ts arbitrary: bound) auto

text \<open>
  C10. \<^verbatim>\<open>PATCH /api/task/<id>\<close> with an id that no task has: on a non-empty task list
  no task changes and the \<^verbatim>\<open>task\<close> field of the response is the last task of the
  list; on an empty task list the handler raises (the loop variable was never bound).
\<close>

theorem update_task_unknown_id:
  assumes "\<forall>t \<in> set (tasks data). id' t \<noteq> task_id"
  shows "(tasks data \<noteq> [] \<longrightarrow>
            update_task task_id updates data = Inr (data, last (tasks data))) \<and>
         (tasks data = [] \<longrightarrow> update_task task_id updates data = Inl UnboundLocalError)"
  using update_loop_no_match [OF assms, of updates None]
  by (simp add: update_task_def)

theorem update_task_unknown_id_witness:
  "update_task ''fig9-final'' \<lparr>p_id = None, p_title = None, p_week = Some 5, p_completed = None,
       p_priority = None, p_figure = None, p_notes = None\<rparr>
     (get_default_data\<lparr>tasks := take 2 default_tasks\<rparr>) =
   Inr (get_default_data\<lparr>tasks := take 2 default_tasks\<rparr>,
        \<lparr>id' = ''cut-sections'', title = JStr ''Cut IHC sections from fixed tissue'', week = 1,
         completed = False, priority = JStr ''medium'', figure = JInt 3, notes' = JStr ''''\<rparr>) \<and>
   update_task ''fig9-final'' \<lparr>p_id = None, p_title = None, p_week = Some 5, p_completed = None,
       p_priority = None, p_figure = None, p_notes = None\<rparr>
     (get_default_data\<lparr>tasks := []\<rparr>) = Inl UnboundLocalError"
proof -
  have h1: "\<forall>t \<in> set (tasks (get_default_data\<lparr>tasks := take 2 default_tasks\<rparr>)).
              id' t \<noteq> ''fig9-final''"
    by (simp add: default_tasks_def)
  have h2: "\<forall>t \<in> set (tasks (get_default_data\<lparr>tasks := []\<rparr>)). id' t \<noteq> ''fig9-final''"
    by simp
  show ?thesis
    using update_task_unknown_id [OF h1] update_task_unknown_id [OF h2]
    by (simp add: default_tasks_def)
qed

section \<open>Properties of one update\<close>

lemma id_matches_completed [simp]:
  "id_matches (t\<lparr>completed := b\<rparr>) task_id = id_matches t task_id"
  by (simp add: id_matches_def)

lemma id_matches_week [simp]:
  "id_matches (t\<lparr>week := w\<rparr>) task_id = id_matches t task_id"
  by (simp add: id_matches_def)







lemma move_loop_no_match:
  "\<forall>t \<in> set ts. \<not> id_matches t task_id \<Longrightarrow> move_loop task_id new_week ts = Inr (ts, [])"
  by (induction ts) auto

lemma complete_loop_no_match:
  "\<forall>t \<in> set ts. \<not> id_matches t task_id \<Longrightarrow> complete_loop task_id ts = (ts, [])"
  by (induction ts) auto

lemma move_loop_weeks:
  "move_loop task_id new_week ts = Inr (ts', out) \<Longrightarrow> t' \<in> set ts' \<Longrightarrow>
   t' \<in> set ts \<or> (\<exists>n. py_int new_week = Inr n \<and> week t' = n)"
proof (induction ts arbitrary: ts' out)
  case Nil
  then show ?case by simp
next
  case (Cons t ts)
  show ?case
  proof (cases "id_matches t task_id")
    case True
    with Cons.prems show ?thesis
      by (auto split: sum.splits)
  next
    case False
    with Cons.prems obtain ts1 where
      m: "move_loop task_id new_week ts = Inr (ts1, out)" and ts': "ts' = t # ts1"
      by (auto split: sum.splits prod.splits)
    from Cons.prems(2) ts' have "t' = t \<or> t' \<in> set ts1"
      by simp
    then show ?thesis
    proof
      assume "t' = t"
      then show ?thesis by simp
    next
      assume "t' \<in> set ts1"
      from Cons.IH [OF m this] show ?thesis by auto
    qed
  qed
qed

lemma complete_loop_weeks:
  "t' \<in> set (fst (complete_loop task_id ts)) \<Longrightarrow> \<exists>t \<in> set ts. week t' = week t"
  by (induction ts) (auto split: prod.splits if_splits)

lemma current_week_of_range: "1 \<le> current_week_of day start \<and> current_week_of day start \<le> 8"
  by (simp add: current_week_of_def)

lemma add_result:
  "dict_get d ''action'' (JStr '''') = JStr ''add'' \<Longrightarrow>
   apply_update now cw (JObj d) ts =
     (case py_int (dict_get d ''week'' (JInt cw)) of
        Inl e \<Rightarrow> Inl e
      | Inr w \<Rightarrow>
          Inr (ts @ [\<lparr>id' = ''task-'' @ str_int now,
                       title = dict_get d ''title'' (JStr ''New Task''),
                       week = w,
                       completed = False,
                       priority = dict_get d ''priority'' (JStr ''medium''),
                       figure = dict_get d ''figure'' JNull,
                       notes' = dict_get d ''reason'' (JStr '''')\<rparr>],
               [Added (dict_get d ''title'' (JStr ''New Task''))]))"
  by (simp add: apply_update_def Let_def split: sum.splits)

text \<open>
  C3, as amended. The loop does not check the week it stores. A task list whose weeks
  are all within 1..8 stays so under an update that is applied without an exception,
  provided the week the update carries is within 1..8: for \<^verbatim>\<open>move\<close> the integer that
  \<^verbatim>\<open>new_week\<close> coerces to, for \<^verbatim>\<open>add\<close> the integer that the \<^verbatim>\<open>week\<close> field coerces to
  when the field is present (when it is absent the current week is stored, which is
  within 1..8 by its computation). The other updates change no week.
\<close>

theorem week_range_kept_for_weeks_in_range:
  assumes inv: "weeks_in_range ts"
    and ok: "apply_update now (current_week_of day start) (JObj d) ts = Inr (ts', out)"
    and mv: "\<And>n. dict_get d ''action'' (JStr '''') = JStr ''move'' \<Longrightarrow>
               py_int (dict_get d ''new_week'' JNull) = Inr n \<Longrightarrow> 1 \<le> n \<and> n \<le> 8"
    and ad: "\<And>v n. dict_get d ''action'' (JStr '''') = JStr ''add'' \<Longrightarrow>
               map_of d ''week'' = Some v \<Longrightarrow> py_int v = Inr n \<Longrightarrow> 1 \<le> n \<and> n \<le> 8"
  shows "weeks_in_range ts'"
proof -
  let ?action = "dict_get d ''action'' (JStr '''')"
  let ?tid = "dict_get d ''task_id'' JNull"
  let ?cw = "current_week_of day start"
  from inv have inv': "\<forall>t \<in> set ts. 1 \<le> week t \<and> week t \<le> 8"
    by (simp add: weeks_in_range_def list_all_iff)
  have "\<forall>t' \<in> set ts'. 1 \<le> week t' \<and> week t' \<le> 8"
  proof
    fix t' assume t': "t' \<in> set ts'"
    consider (move) "?action = JStr ''move''" | (complete) "?action = JStr ''complete''"
      | (add) "?action = JStr ''add''" | (delete) "?action = JStr ''delete''"
      | (other) "?action \<noteq> JStr ''move''" "?action \<noteq> JStr ''complete''"
          "?action \<noteq> JStr ''add''" "?action \<noteq> JStr ''delete''"
      by blast
    then show "1 \<le> week t' \<and> week t' \<le> 8"
    proof cases
      case move
      show ?thesis
      proof (cases "truthy ?tid \<and> truthy (dict_get d ''new_week'' JNull)")
        case True
        with move ok have "move_loop ?tid (dict_get d ''new_week'' JNull) ts = Inr (ts', out)"
          by (simp add: apply_update_def)
        from move_loop_weeks [OF this t'] inv' mv [OF move] show ?thesis
          by auto
      next
        case False
        with move ok have "ts' = ts"
          by (auto simp: apply_update_def)
        with t' inv' show ?thesis by simp
      qed
    next
      case complete
      show ?thesis
      proof (cases "truthy ?tid")
        case True
        with complete ok have "ts' = fst (complete_loop ?tid ts)"
          by (auto simp: apply_update_def)
        with t' complete_loop_weeks [of t' ?tid ts] inv' show ?thesis
          by auto
      next
        case False
        with complete ok have "ts' = ts"
          by (auto simp: apply_update_def)
        with t' inv' show ?thesis by simp
      qed
    next
      case add
      from add_result [OF add, of now ?cw ts] ok
      obtain w t where w: "py_int (dict_get d ''week'' (JInt ?cw)) = Inr w"
        and ts': "ts' = ts @ [t]" and wt: "week t = w"
        by (auto split: sum.splits)
      have "1 \<le> w \<and> w \<le> 8"
      proof (cases "map_of d ''week''")
        case None
        with w have "w = ?cw"
          by (simp add: dict_get_def)
        with current_week_of_range [of day start] show ?thesis
          by simp
      next
        case (Some v)
        with w ad [OF add, of v w] show ?thesis
          by (simp add: dict_get_def)
      qed
      with ts' wt t' inv' show ?thesis
        by auto
    next
      case delete
      with ok have "set ts' \<subseteq> set ts"
        by (auto simp: apply_update_def Let_def split: if_splits)
      with t' inv' show ?thesis by auto
    next
      case other
      with ok have "ts' = ts"
        by (simp add: apply_update_def)
      with t' inv' show ?thesis by simp
    qed
  qed
  then show ?thesis
    by (simp add: weeks_in_range_def list_all_iff)
qed

theorem week_range_kept_for_weeks_in_range_witness:
  "weeks_in_range [mag_quant, cut_sections] \<and>
   apply_update 1770109200 (current_week_of 20487 20470)
       (JObj [(''action'', JStr ''move''), (''task_id'', JStr ''mag-quant''), (''new_week'', JInt 2),
              (''reason'', JStr ''x'')])
       [mag_quant, cut_sections] =
     Inr ([mag_quant\<lparr>week := 2\<rparr>, cut_sections], [Moved (JStr ''mag-quant'') (JInt 2)]) \<and>
   weeks_in_range [mag_quant\<lparr>week := 2\<rparr>, cut_sections]"
proof -
  let ?d = "[(''action'', JStr ''move''), (''task_id'', JStr ''mag-quant''), (''new_week'', JInt 2),
             (''reason'', JStr ''x'')]"
  have inv: "weeks_in_range [mag_quant, cut_sections]"
    by (simp add: weeks_in_range_def task_defs)
  have ok: "apply_update 1770109200 (current_week_of 20487 20470) (JObj ?d) [mag_quant, cut_sections] =
      Inr ([mag_quant\<lparr>week := 2\<rparr>, cut_sections], [Moved (JStr ''mag-quant'') (JInt 2)])"
    by (simp add: task_defs apply_update_def dict_get_def id_matches_def Let_def)
  have mv: "1 \<le> n \<and> n \<le> 8" if "py_int (dict_get ?d ''new_week'' JNull) = Inr n" for n
    using that by (simp add: dict_get_def)
  have ad: "1 \<le> n \<and> n \<le> 8" if "dict_get ?d ''action'' (JStr '''') = JStr ''add''" for n :: int
    using that by (simp add: dict_get_def)
  from week_range_kept_for_weeks_in_range [OF inv ok mv ad] inv ok show ?thesis
    by simp
qed

text \<open>A \<^verbatim>\<open>move\<close> to week 99 is applied as it is.\<close>

theorem move_out_of_range_counterexample:
  "weeks_in_range [mag_quant, cut_sections] \<and>
   apply_update 1770109200 3 update_move_99 [mag_quant, cut_sections] =
     Inr ([mag_quant\<lparr>week := 99\<rparr>, cut_sections], [Moved (JStr ''mag-quant'') (JInt 99)]) \<and>
   \<not> weeks_in_range [mag_quant\<lparr>week := 99\<rparr>, cut_sections]"
  by (simp add: weeks_in_range_def task_defs update_move_99_def apply_update_def dict_get_def
        id_matches_def Let_def)

lemma str_int_example: "str_int 1770109200 = ''1770109200''"
  by (simp add: str_int_def str_nat.simps)

text \<open>
  C4, as amended. An \<^verbatim>\<open>add\<close> update whose \<^verbatim>\<open>week\<close> field is absent or coerces to an
  integer, and whose line \<^verbatim>\<open>Added new task: <title>\<close> stdout takes, is applied: the
  loop goes on to the next block with one task appended and the update listed in
  \<^verbatim>\<open>task_updates\<close>. The task has the id \<^verbatim>\<open>task-<seconds>\<close>, \<^verbatim>\<open>completed\<close> false, and
  as its week that integer, or the current week when the field is absent. Its title,
  priority, figure and notes are the \<^verbatim>\<open>title\<close>, \<^verbatim>\<open>priority\<close>, \<^verbatim>\<open>figure\<close> and \<^verbatim>\<open>reason\<close>
  fields of the update as they are when present (the priority whatever its value), and
  \<^verbatim>\<open>'New Task'\<close>, \<^verbatim>\<open>'medium'\<close>, \<^verbatim>\<open>None\<close> and the empty string when absent.
\<close>

theorem add_appends_task:
  assumes dec: "json_loads E (strip m) = Inr (JObj d)"
    and act: "dict_get d ''action'' (JStr '''') = JStr ''add''"
    and wk: "map_of d ''week'' = None \<and> w = cw \<or>
             (\<exists>v. map_of d ''week'' = Some v \<and> py_int v = Inr w)"
    and prt: "print_raises E (Added (dict_get d ''title'' (JStr ''New Task''))) = None"
  shows "\<exists>t. process_matches E cw i (m # ms) ts ups out =
               process_matches E cw (Suc i) ms (ts @ [t]) (ups @ [JObj d])
                 (out @ [Added (title t)]) \<and>
             apply_update (clock E i) cw (JObj d) ts = Inr (ts @ [t], [Added (title t)]) \<and>
             id' t = ''task-'' @ str_int (clock E i) \<and>
             completed t = False \<and>
             week t = w \<and>
             title t = (case map_of d ''title'' of None \<Rightarrow> JStr ''New Task'' | Some v \<Rightarrow> v) \<and>
             priority t = (case map_of d ''priority'' of None \<Rightarrow> JStr ''medium'' | Some v \<Rightarrow> v) \<and>
             figure t = (case map_of d ''figure'' of None \<Rightarrow> JNull | Some v \<Rightarrow> v) \<and>
             notes' t = (case map_of d ''reason'' of None \<Rightarrow> JStr '''' | Some v \<Rightarrow> v)"
proof -
  from wk have "py_int (dict_get d ''week'' (JInt cw)) = Inr w"
    by (auto simp: dict_get_def)
  with add_result [OF act, of "clock E i" cw ts] dec prt show ?thesis
    by (simp add: dict_get_def)
qed

text \<open>When stdout does not take the line, the turn is lost instead.\<close>

lemma add_print_error_aborts:
  assumes dec: "json_loads E (strip m) = Inr (JObj d)"
    and act: "dict_get d ''action'' (JStr '''') = JStr ''add''"
    and wk: "py_int (dict_get d ''week'' (JInt cw)) = Inr w"
    and prt: "print_raises E (Added (dict_get d ''title'' (JStr ''New Task''))) = Some e"
  shows "process_matches E cw i (m # ms) ts ups out = (Inl e, out)"
  using add_result [OF act, of "clock E i" cw ts] dec wk prt by simp

theorem add_appends_task_witness:
  \<open>process_matches (example_env (Inr reply_two_adds)) 3 0
       [''{"action": "add", "title": "Book microscope", "week": 4}''] [mag_quant] [] [] =
     (Inr ([mag_quant,
            \<lparr>id' = ''task-1770109200'', title = JStr ''Book microscope'', week = 4,
             completed = False, priority = JStr ''medium'', figure = JNull, notes' = JStr ''''\<rparr>],
           [update_add_microscope]),
      [Added (JStr ''Book microscope'')])\<close>
proof -
  let ?E = "example_env (Inr reply_two_adds)"
  let ?m = \<open>''{"action": "add", "title": "Book microscope", "week": 4}''\<close>
  let ?d = "[(''action'', JStr ''add''), (''title'', JStr ''Book microscope''), (''week'', JInt 4)]"
  have dec: "json_loads ?E (strip ?m) = Inr (JObj ?d)"
    by (simp add: ex_defs strip_def isspace_def)
  have act: "dict_get ?d ''action'' (JStr '''') = JStr ''add''"
    by (simp add: dict_get_def)
  have wk: "map_of ?d ''week'' = None \<and> (4::int) = 3 \<or>
            (\<exists>v. map_of ?d ''week'' = Some v \<and> py_int v = Inr 4)"
    by simp
  have prt: "print_raises ?E (Added (dict_get ?d ''title'' (JStr ''New Task''))) = None"
    by (simp add: example_env_def)
  have clk: "clock ?E 0 = 1770109200"
    by (simp add: example_env_def)
  from add_appends_task [OF dec act wk prt, of 0 "[]" "[mag_quant]" "[]" "[]"] show ?thesis
    by (auto simp: update_add_microscope_def str_int_example clk intro: task.equality)
qed

text \<open>An \<^verbatim>\<open>add\<close> with the priority \<^verbatim>\<open>"urgent"\<close>, which is none of the four priorities,
  stores that priority.\<close>

theorem add_invalid_priority_counterexample:
  "apply_update 1770109200 3 update_add_antibodies [] =
     Inr ([\<lparr>id' = ''task-1770109200'', title = JStr ''Order antibodies'', week = 3,
            completed = False, priority = JStr ''urgent'', figure = JNull, notes' = JStr ''''\<rparr>],
          [Added (JStr ''Order antibodies'')])"
  by (simp add: update_add_antibodies_def apply_update_def dict_get_def str_int_example Let_def)

text \<open>
  C8, as amended. An update that is not applied leaves no record of its own. When the
  action is none of the four, or when it is \<^verbatim>\<open>complete\<close> and no task has the id, the
  task list is unchanged, nothing is printed and nothing is raised; the update is
  appended to \<^verbatim>\<open>task_updates\<close> like an applied one and the loop goes on with the next
  block.
\<close>

theorem unapplied_update_is_silent:
  assumes dec: "json_loads E (strip m) = Inr (JObj d)"
    and skip: "dict_get d ''action'' (JStr '''') \<notin>
                 {JStr ''move'', JStr ''complete'', JStr ''add'', JStr ''delete''} \<or>
               dict_get d ''action'' (JStr '''') = JStr ''complete'' \<and>
               (\<forall>t \<in> set ts. \<not> id_matches t (dict_get d ''task_id'' JNull))"
  shows "apply_update (clock E i) cw (JObj d) ts = Inr (ts, []) \<and>
         process_matches E cw i (m # ms) ts ups out =
           process_matches E cw (Suc i) ms ts (ups @ [JObj d]) out"
proof -
  from skip have "apply_update (clock E i) cw (JObj d) ts = Inr (ts, [])"
  proof
    assume "dict_get d ''action'' (JStr '''') \<notin>
              {JStr ''move'', JStr ''complete'', JStr ''add'', JStr ''delete''}"
    then show ?thesis
      by (simp add: apply_update_def)
  next
    assume c: "dict_get d ''action'' (JStr '''') = JStr ''complete'' \<and>
               (\<forall>t \<in> set ts. \<not> id_matches t (dict_get d ''task_id'' JNull))"
    then have "complete_loop (dict_get d ''task_id'' JNull) ts = (ts, [])"
      by (simp add: complete_loop_no_match)
    with c show ?thesis
      by (simp add: apply_update_def Let_def)
  qed
  with dec show ?thesis
    by simp
qed

theorem unapplied_update_is_silent_witness:
  \<open>apply_update 1770109200 3 update_archive [mag_quant, cut_sections] =
     Inr ([mag_quant, cut_sections], []) \<and>
   process_matches (example_env (Inr reply_not_applied)) 3 0
       [''{"action": "archive", "task_id": "mag-quant"}''] [mag_quant, cut_sections] [] [] =
     (Inr ([mag_quant, cut_sections], [update_archive]), [])\<close>
proof -
  let ?E = "example_env (Inr reply_not_applied)"
  let ?m = \<open>''{"action": "archive", "task_id": "mag-quant"}''\<close>
  let ?d = "[(''action'', JStr ''archive''), (''task_id'', JStr ''mag-quant'')]"
  have dec: "json_loads ?E (strip ?m) = Inr (JObj ?d)"
    by (simp add: ex_defs strip_def isspace_def)
  have skip: "dict_get ?d ''action'' (JStr '''') \<notin>
                {JStr ''move'', JStr ''complete'', JStr ''add'', JStr ''delete''} \<or>
              dict_get ?d ''action'' (JStr '''') = JStr ''complete'' \<and>
              (\<forall>t \<in> set [mag_quant, cut_sections]. \<not> id_matches t (dict_get ?d ''task_id'' JNull))"
    by (simp add: dict_get_def)
  from unapplied_update_is_silent [OF dec skip, of 0 3 "[]" "[]" "[]"] show ?thesis
    by (simp add: update_archive_def example_env_def)
qed

lemma findall_not_applied:
  \<open>findall reply_not_applied =
     [''{"action": "archive", "task_id": "mag-quant"}'',
      ''{"action": "complete", "task_id": "does-not-exist"}'']\<close>
  by (simp add: reply_not_applied_def scan_defs)

lemma sub_blocks_not_applied: "sub_blocks reply_not_applied = ''\<newline>\<newline>Done.''"
  by (simp add: reply_not_applied_def scan_defs)

text \<open>A reply with an unknown action and a \<^verbatim>\<open>complete\<close> of an id that no task has:
  nothing is printed, and both updates are listed in \<^verbatim>\<open>task_updates\<close> as applied ones
  are.\<close>

theorem skipped_updates_counterexample:
  "chat (example_env (Inr reply_not_applied)) (get_default_data\<lparr>tasks := [mag_quant, cut_sections]\<rparr>)
       ''Archive the MAG task'' =
     (get_default_data
        \<lparr>tasks := [mag_quant, cut_sections],
         chat_history :=
           [\<lparr>role = ''user'', content = ''Archive the MAG task'',
             timestamp = ''2026-02-03T09:00:00.120000''\<rparr>,
            \<lparr>role = ''assistant'', content = reply_not_applied,
             timestamp = ''2026-02-03T09:00:00.480000''\<rparr>]\<rparr>,
      \<lparr>response = ''Done.'', error = False,
       task_updates = [update_archive, update_complete_missing]\<rparr>,
      [])"
  by (simp add: chat_def findall_not_applied sub_blocks_not_applied current_week_of_def
        resolve_api_key_def falsy_key_def ex_defs strip_def isspace_def apply_update_def
        dict_get_def get_default_data_def id_matches_def task_defs Let_def)

section \<open>Properties of the chat request\<close>

text \<open>No credential: the environment variable is unset or empty, and \<^verbatim>\<open>~/.env\<close> does not
  exist or has no line that starts with the key.\<close>

lemma scan_dotenv_none:
  "\<forall>line \<in> set lines. \<not> prefix ''ANTHROPIC_API_KEY='' line \<Longrightarrow> scan_dotenv lines = None"
  by (induction lines) simp_all

lemma no_credential:
  assumes "falsy_key environ"
    and "file = None \<or>
         (\<exists>lines. file = Some lines \<and> (\<forall>line \<in> set lines. \<not> prefix ''ANTHROPIC_API_KEY='' line))"
  shows "falsy_key (resolve_api_key environ file)"
  using assms by (auto simp: resolve_api_key_def scan_dotenv_none)

text \<open>
  C9. When no credential is found, or the call to the model raises, \<^verbatim>\<open>chat\<close> returns
  a response with \<^verbatim>\<open>error\<close> true, a non-empty text and an empty list of task updates;
  the store on disk is the loaded one, so its chat history has the length it had.
\<close>

theorem chat_without_model:
  assumes "falsy_key (resolve_api_key (environ_key E) (dotenv E)) \<or> (\<exists>e. model_reply E = Inl e)"
  shows "\<exists>r out. chat E data user_message = (data, r, out) \<and>
           error r \<and> response r \<noteq> [] \<and> task_updates r = [] \<and>
           length (chat_history (fst (chat E data user_message))) = length (chat_history data)"
proof (cases "falsy_key (resolve_api_key (environ_key E) (dotenv E))")
  case True
  then show ?thesis
    by (simp add: chat_def Let_def)
next
  case False
  with assms obtain e where "model_reply E = Inl e"
    by blast
  with False show ?thesis
    by (simp add: chat_def Let_def error_response_def)
qed

theorem chat_without_model_witness:
  "chat ((example_env (Inr ''Hello.''))\<lparr>environ_key := None\<rparr>) get_default_data ''Hi'' =
     (get_default_data,
      \<lparr>response = ''API key not found. Please set ANTHROPIC_API_KEY in your ~/.env file.'',
       error = True, task_updates = []\<rparr>,
      []) \<and>
   chat (example_env (Inl (ServiceError ''Connection error.''))) get_default_data ''Hi'' =
     (get_default_data,
      \<lparr>response = ''Error communicating with AI: Connection error.'',
       error = True, task_updates = []\<rparr>,
      [Traceback (ServiceError ''Connection error.'')])"
proof -
  let ?E1 = "(example_env (Inr ''Hello.''))\<lparr>environ_key := None\<rparr>"
  let ?E2 = "example_env (Inl (ServiceError ''Connection error.''))"
  have h1: "falsy_key (resolve_api_key (environ_key ?E1) (dotenv ?E1)) \<or>
            (\<exists>e. model_reply ?E1 = Inl e)"
    by (simp add: example_env_def resolve_api_key_def falsy_key_def)
  have h2: "falsy_key (resolve_api_key (environ_key ?E2) (dotenv ?E2)) \<or>
            (\<exists>e. model_reply ?E2 = Inl e)"
    by (simp add: example_env_def)
  from chat_without_model [OF h1, of get_default_data "''Hi''"]
       chat_without_model [OF h2, of get_default_data "''Hi''"]
  show ?thesis
    by (simp add: chat_def example_env_def resolve_api_key_def falsy_key_def error_response_def)
qed

subsection \<open>What \<^verbatim>\<open>re.findall\<close> finds in a reply of blocks\<close>

text \<open>Text without a backquote holds no match; a block whose body has no backquote and
  does not start with whitespace is found whole, whatever follows it.\<close>

lemma match_here_plain: "c \<noteq> CHR 0x60 \<Longrightarrow> match_here (c # s) = None"
  by (auto simp: match_here_def open_marker_def)

lemma findall_skip_plain: "CHR 0x60 \<notin> set pre \<Longrightarrow> findall (pre @ s) = findall s"
proof (induction pre)
  case Nil
  then show ?case by simp
next
  case (Cons c pre)
  then have "c \<noteq> CHR 0x60" and "CHR 0x60 \<notin> set pre"
    by auto
  with Cons.IH match_here_plain [of c "pre @ s"] show ?case
    by simp
qed

lemma findall_plain: "CHR 0x60 \<notin> set s \<Longrightarrow> findall s = []"
  using findall_skip_plain [of s "[]"] by simp

lemma lazy_body_plain:
  "CHR 0x60 \<notin> set body \<Longrightarrow>
   lazy_body (body @ fence @ rest) = Some (drop_final_newline body, rest)"
proof (induction body)
  case Nil
  then show ?case
    by (simp add: fence_def drop_final_newline_def)
next
  case (Cons c cs)
  then have c: "c \<noteq> CHR 0x60" and cs: "CHR 0x60 \<notin> set cs"
    by auto
  show ?case
  proof (cases cs)
    case Nil
    with c show ?thesis
      by (auto simp: fence_def drop_final_newline_def)
  next
    case (Cons d ds)
    with cs have d: "d \<noteq> CHR 0x60"
      by auto
    from Cons.IH [OF cs] have "lazy_body (cs @ fence @ rest) = Some (drop_final_newline cs, rest)" .
    with c d Cons show ?thesis
      by (auto simp: fence_def drop_final_newline_def)
  qed
qed

lemma match_here_block:
  assumes ws: "\<forall>c \<in> set ws. isspace c"
    and body: "CHR 0x60 \<notin> set body"
    and hd: "body = [] \<or> \<not> isspace (hd body)"
  shows "match_here (block ws body @ rest) = Some (drop_final_newline body, rest)"
proof -
  have "dropWhile isspace (ws @ body @ fence @ rest) = dropWhile isspace (body @ fence @ rest)"
    using ws by (simp add: dropWhile_append2)
  also have "\<dots> = body @ fence @ rest"
    using hd by (cases body) (auto simp: fence_def isspace_def)
  finally have "dropWhile isspace (ws @ body @ fence @ rest) = body @ fence @ rest" .
  then show ?thesis
    using lazy_body_plain [OF body, of rest]
    by (simp add: match_here_def block_def)
qed

lemma findall_block:
  assumes "CHR 0x60 \<notin> set pre"
    and "\<forall>c \<in> set ws. isspace c"
    and "CHR 0x60 \<notin> set body"
    and "body = [] \<or> \<not> isspace (hd body)"
  shows "findall (pre @ block ws body @ rest) = drop_final_newline body # findall rest"
proof -
  have "findall (pre @ block ws body @ rest) = findall (block ws body @ rest)"
    using assms(1) by (rule findall_skip_plain)
  also have "\<dots> = drop_final_newline body # findall rest"
  proof -
    obtain c cs where eq: "block ws body @ rest = c # cs"
      by (cases "block ws body @ rest") (simp_all add: block_def open_marker_def)
    from match_here_block [OF assms(2-4), of rest] eq show ?thesis
      by simp
  qed
  finally show ?thesis .
qed

lemma strip_drop_final_newline:
  assumes "body = [] \<or> \<not> isspace (hd body)"
  shows "strip (drop_final_newline body) = strip body"
proof (cases "body \<noteq> [] \<and> last body = CHR ''\<newline>''")
  case False
  then show ?thesis
    by (auto simp: drop_final_newline_def)
next
  case True
  then obtain bs where b: "body = bs @ [CHR ''\<newline>'']"
    by (metis append_butlast_last_id)
  have nl: "isspace (CHR ''\<newline>'')"
    by (simp add: isspace_def)
  have "dropWhile isspace body = body"
    using assms True by (cases body) auto
  moreover have "dropWhile isspace bs = bs"
    using assms b by (cases bs) auto
  ultimately show ?thesis
    using True b nl by (simp add: strip_def drop_final_newline_def)
qed

lemma findall_three_blocks:
  assumes plain: "CHR 0x60 \<notin> set t0" "CHR 0x60 \<notin> set t1" "CHR 0x60 \<notin> set t2"
      "CHR 0x60 \<notin> set t3"
    and ws: "\<forall>c \<in> set ws1. isspace c" "\<forall>c \<in> set ws2. isspace c" "\<forall>c \<in> set ws3. isspace c"
    and bodies: "CHR 0x60 \<notin> set b1" "CHR 0x60 \<notin> set b2" "CHR 0x60 \<notin> set b3"
    and heads: "b1 = [] \<or> \<not> isspace (hd b1)" "b2 = [] \<or> \<not> isspace (hd b2)"
      "b3 = [] \<or> \<not> isspace (hd b3)"
  shows "findall (t0 @ block ws1 b1 @ t1 @ block ws2 b2 @ t2 @ block ws3 b3 @ t3) =
           [drop_final_newline b1, drop_final_newline b2, drop_final_newline b3]"
proof -
  have "findall (t0 @ block ws1 b1 @ t1 @ block ws2 b2 @ t2 @ block ws3 b3 @ t3) =
          drop_final_newline b1 # findall (t1 @ block ws2 b2 @ t2 @ block ws3 b3 @ t3)"
    using plain(1) ws(1) bodies(1) heads(1) by (rule findall_block)
  also have "findall (t1 @ block ws2 b2 @ t2 @ block ws3 b3 @ t3) =
          drop_final_newline b2 # findall (t2 @ block ws3 b3 @ t3)"
    using plain(2) ws(2) bodies(2) heads(2) by (rule findall_block)
  also have "findall (t2 @ block ws3 b3 @ t3) = drop_final_newline b3 # findall t3"
    using plain(3) ws(3) bodies(3) heads(3) by (rule findall_block)
  also have "findall t3 = []"
    using plain(4) by (rule findall_plain)
  finally show ?thesis .
qed

text \<open>What the handler inside the loop does with a body that does not decode: a
  \<^verbatim>\<open>JSONDecodeError\<close> is reported and only that body is dropped (if the report can be
  printed); any other exception of \<^verbatim>\<open>json.loads\<close> leaves the loop.\<close>

lemma decode_error_is_skipped:
  assumes "json_loads E (strip m) = Inl JSONDecodeError"
    and "print_raises E (FailedParse m) = None"
  shows "process_matches E cw i (m # ms) ts ups out =
           process_matches E cw (Suc i) ms ts ups (out @ [FailedParse m])"
  using assms by simp

lemma other_decode_error_aborts:
  assumes "json_loads E (strip m) = Inl e"
    and "e \<noteq> JSONDecodeError"
  shows "process_matches E cw i (m # ms) ts ups out = (Inl e, out)"
  using assms by simp

lemma update_error_aborts:
  assumes "json_loads E (strip m) = Inr update"
    and "apply_update (clock E i) cw update ts = Inl e"
  shows "process_matches E cw i (m # ms) ts ups out = (Inl e, out)"
  using assms by simp

text \<open>Three blocks of which the second raises \<^verbatim>\<open>JSONDecodeError\<close>, while the first and
  the third decode to updates that are applied and printed without an exception:
  \<^verbatim>\<open>task_updates\<close> holds the two decoded updates in their order.\<close>

lemma json_error_between_two:
  assumes found: "findall text = [b1, b2, b3]"
    and d1: "json_loads E (strip b1) = Inr u1"
    and d2: "json_loads E (strip b2) = Inl JSONDecodeError"
    and d3: "json_loads E (strip b3) = Inr u3"
    and a1: "apply_update (clock E 0) cw u1 ts = Inr (ts1, out1)"
    and a3: "apply_update (clock E 2) cw u3 ts1 = Inr (ts3, out3)"
    and p: "print_lines E out1 = None" "print_raises E (FailedParse b2) = None"
      "print_lines E out3 = None"
  shows "process_matches E cw 0 (findall text) ts [] [] =
           (Inr (ts3, [u1, u3]), out1 @ [FailedParse b2] @ out3)"
  using assms by (simp add: numeral_2_eq_2)

lemma strip_plain:
  assumes "s \<noteq> []" and "\<not> isspace (hd s)" and "\<not> isspace (last s)"
  shows "strip s = s"
proof -
  from assms(1,2) have a: "dropWhile isspace s = s"
    by (cases s) simp_all
  from assms(1,3) have "dropWhile isspace (rev s) = rev s"
    by (cases "rev s") (simp_all add: last_rev [symmetric] hd_rev)
  with a show ?thesis
    by (simp add: strip_def)
qed

lemma findall_deep_middle:
  \<open>findall reply_deep_middle =
     [''{"action": "complete", "task_id": "mag-quant"}'', deep_body,
      ''{"action": "delete", "task_id": "cut-sections"}'']\<close>
proof -
  have \<open>findall ([] @ block ''\<newline>'' ''{"action": "complete", "task_id": "mag-quant"}\<newline>'' @
          ''\<newline>'' @ block ''\<newline>'' (deep_body @ ''\<newline>'') @ ''\<newline>'' @
          block ''\<newline>'' ''{"action": "delete", "task_id": "cut-sections"}\<newline>'' @ []) =
        [drop_final_newline ''{"action": "complete", "task_id": "mag-quant"}\<newline>'',
         drop_final_newline (deep_body @ ''\<newline>''),
         drop_final_newline ''{"action": "delete", "task_id": "cut-sections"}\<newline>'']\<close>
    by (rule findall_three_blocks) (simp_all add: isspace_def deep_body_def)
  then show ?thesis
    by (simp add: reply_deep_middle_def drop_final_newline_def)
qed

lemma loads_deep_body: "example_loads (strip deep_body) = Inl RecursionError"
proof -
  have "strip deep_body = deep_body"
    by (rule strip_plain) (simp_all add: deep_body_def isspace_def)
  then show ?thesis
    by (simp add: example_loads_def deep_body_def list_all_iff)
qed

text \<open>
  C6. The reply holds three blocks: a \<^verbatim>\<open>complete\<close>, a body of a thousand opening
  brackets, and a \<^verbatim>\<open>delete\<close>. On the second body \<^verbatim>\<open>json.loads\<close> raises
  \<^verbatim>\<open>RecursionError\<close>, which is no \<^verbatim>\<open>JSONDecodeError\<close>: the handler inside the loop does
  not take it, the request ends in the outer handler with \<^verbatim>\<open>error\<close> true and no task
  updates, the \<^verbatim>\<open>delete\<close> that follows is never reached, and the \<^verbatim>\<open>complete\<close> that
  was applied is not saved.
\<close>

theorem deep_body_between_two_aborts_turn:
  "chat (example_env (Inr reply_deep_middle)) (get_default_data\<lparr>tasks := [mag_quant, cut_sections]\<rparr>)
       ''MAG is done, drop the sections'' =
     (get_default_data\<lparr>tasks := [mag_quant, cut_sections]\<rparr>,
      \<lparr>response = ''Error communicating with AI: maximum recursion depth exceeded while decoding a JSON array from a unicode string'',
       error = True, task_updates = []\<rparr>,
      [Completed (JStr ''mag-quant''), Traceback RecursionError])"
proof -
  have first: \<open>example_loads (strip ''{"action": "complete", "task_id": "mag-quant"}'') =
                 Inr update_complete_mag\<close>
    by (simp add: example_loads_def example_table_def strip_def isspace_def)
  have change: "apply_update 1770109200 3 update_complete_mag [mag_quant, cut_sections] =
      Inr ([mag_quant\<lparr>completed := True\<rparr>, cut_sections], [Completed (JStr ''mag-quant'')])"
    by (simp add: update_complete_mag_def apply_update_def dict_get_def id_matches_def task_defs
          Let_def)
  show ?thesis
    by (simp add: chat_def findall_deep_middle current_week_of_def resolve_api_key_def
          falsy_key_def example_env_def get_default_data_def first change loads_deep_body
          error_response_def)
qed

lemma findall_malformed_middle:
  \<open>findall reply_malformed_middle =
     [''{"action": "complete", "task_id": "mag-quant"}'',
      ''{"action": "complete", "task_id": '',
      ''{"action": "delete", "task_id": "cut-sections"}'']\<close>
  by (simp add: reply_malformed_middle_def scan_defs)

lemma json_error_between_two_example:
  \<open>process_matches (example_env (Inr reply_malformed_middle)) 3 0
       (findall reply_malformed_middle) [mag_quant, cut_sections] [] [] =
     (Inr ([mag_quant\<lparr>completed := True\<rparr>], [update_complete_mag, update_delete_cut]),
      [Completed (JStr ''mag-quant''),
       FailedParse ''{"action": "complete", "task_id": '',
       Deleted (JStr ''cut-sections'')])\<close>
  by (simp add: findall_malformed_middle ex_defs strip_def isspace_def apply_update_def
        dict_get_def id_matches_def task_defs Let_def)

text \<open>A \<^verbatim>\<open>move\<close> whose \<^verbatim>\<open>new_week\<close> is absent, \<^verbatim>\<open>null\<close>, zero or empty is passed over:
  the task list is unchanged, nothing is printed and nothing is raised.\<close>

lemma move_without_week_is_skipped:
  assumes "dict_get d ''action'' (JStr '''') = JStr ''move''"
    and "\<not> truthy (dict_get d ''new_week'' JNull)"
  shows "apply_update now cw (JObj d) ts = Inr (ts, [])"
  using assms by (simp add: apply_update_def Let_def)

text \<open>With a task that has the id, a \<^verbatim>\<open>new_week\<close> that \<^verbatim>\<open>int\<close> rejects makes the update
  raise.\<close>

lemma move_loop_raises:
  "\<exists>t \<in> set ts. id_matches t task_id \<Longrightarrow> py_int new_week = Inl e \<Longrightarrow>
   move_loop task_id new_week ts = Inl e"
proof (induction ts)
  case Nil
  then show ?case by simp
next
  case (Cons a ts)
  show ?case
  proof (cases "id_matches a task_id")
    case True
    with Cons.prems(2) show ?thesis by simp
  next
    case False
    with Cons.prems(1) have "\<exists>t \<in> set ts. id_matches t task_id"
      by simp
    from Cons.IH [OF this Cons.prems(2)] False show ?thesis
      by simp
  qed
qed

lemma move_bad_week_raises:
  assumes "dict_get d ''action'' (JStr '''') = JStr ''move''"
    and "truthy (dict_get d ''task_id'' JNull)"
    and "truthy (dict_get d ''new_week'' JNull)"
    and "\<exists>t \<in> set ts. id_matches t (dict_get d ''task_id'' JNull)"
    and "py_int (dict_get d ''new_week'' JNull) = Inl e"
  shows "apply_update now cw (JObj d) ts = Inl e"
  using assms(1-3) move_loop_raises [OF assms(4,5)]
  by (simp add: apply_update_def)

lemma findall_move_soon:
  \<open>findall reply_move_soon =
     [''{"action": "move", "task_id": "mag-quant", "new_week": "soon"}'',
      ''{"action": "complete", "task_id": "cut-sections"}'']\<close>
  by (simp add: reply_move_soon_def scan_defs)

text \<open>
  C1. The reply holds a \<^verbatim>\<open>move\<close> of an existing task whose \<^verbatim>\<open>new_week\<close> is the string
  \<^verbatim>\<open>"soon"\<close>, followed by a \<^verbatim>\<open>complete\<close> of another task. \<^verbatim>\<open>int("soon")\<close> raises
  \<^verbatim>\<open>ValueError\<close>, which the handler inside the loop does not catch: the request ends in
  the outer handler with \<^verbatim>\<open>error\<close> true and no task updates, the \<^verbatim>\<open>complete\<close> that
  follows is not applied, and nothing is saved (neither the two chat turns).
\<close>

theorem move_non_numeric_week_aborts_turn:
  "chat (example_env (Inr reply_move_soon)) get_default_data ''Move MAG quantification, sections are cut'' =
     (get_default_data,
      \<lparr>response = ''Error communicating with AI: invalid literal for int() with base 10: ''
           @ [CHR 0x27] @ ''soon'' @ [CHR 0x27],
       error = True, task_updates = []\<rparr>,
      [Traceback ValueError])"
  by (simp add: chat_def findall_move_soon current_week_of_def resolve_api_key_def falsy_key_def
        ex_defs strip_def isspace_def apply_update_def dict_get_def get_default_data_def default_tasks_def
        id_matches_def int_of_str_def int_space_def isdigit_def error_response_def)

lemma findall_two_adds:
  \<open>findall reply_two_adds =
     [''{"action": "add", "title": "Order antibodies", "priority": "urgent"}'',
      ''{"action": "add", "title": "Book microscope", "week": 4}'']\<close>
  by (simp add: reply_two_adds_def scan_defs)

text \<open>
  C2. Two \<^verbatim>\<open>add\<close> updates of one reply, processed within the same second, get the same
  id \<^verbatim>\<open>task-<seconds>\<close>: the ids of the default store are distinct before the request
  and no longer distinct after it.
\<close>

theorem two_adds_in_one_second_share_an_id:
  "distinct (map id' (tasks get_default_data)) \<and>
   tasks (fst (chat (example_env (Inr reply_two_adds)) get_default_data ''Add the two orders'')) =
     default_tasks @
     [\<lparr>id' = ''task-1770109200'', title = JStr ''Order antibodies'', week = 3,
       completed = False, priority = JStr ''urgent'', figure = JNull, notes' = JStr ''''\<rparr>,
      \<lparr>id' = ''task-1770109200'', title = JStr ''Book microscope'', week = 4,
       completed = False, priority = JStr ''medium'', figure = JNull, notes' = JStr ''''\<rparr>] \<and>
   \<not> distinct (map id' (tasks (fst (chat (example_env (Inr reply_two_adds)) get_default_data
        ''Add the two orders''))))"
proof -
  have a: "distinct (map id' (tasks get_default_data))"
    by (simp add: get_default_data_def default_tasks_def)
  have b: "tasks (fst (chat (example_env (Inr reply_two_adds)) get_default_data ''Add the two orders'')) =
     default_tasks @
     [\<lparr>id' = ''task-1770109200'', title = JStr ''Order antibodies'', week = 3,
       completed = False, priority = JStr ''urgent'', figure = JNull, notes' = JStr ''''\<rparr>,
      \<lparr>id' = ''task-1770109200'', title = JStr ''Book microscope'', week = 4,
       completed = False, priority = JStr ''medium'', figure = JNull, notes' = JStr ''''\<rparr>]"
    by (simp add: chat_def findall_two_adds current_week_of_def resolve_api_key_def falsy_key_def
        ex_defs strip_def isspace_def apply_update_def dict_get_def get_default_data_def
        str_int_example Let_def)
  show ?thesis
    using a by (simp add: b)
qed

section \<open>Properties of \<^verbatim>\<open>auto_adjust\<close>\<close>

lemma priority_rank_total: "hashable v \<Longrightarrow> \<exists>r. priority_rank v = Inr r"
  by (cases v) simp_all

lemma sort_keys_length: "sort_keys xs = Inr ks \<Longrightarrow> length ks = length xs"
  by (induction xs arbitrary: ks) (auto split: sum.splits)

lemma sort_keys_total: "\<forall>t \<in> set xs. hashable (priority t) \<Longrightarrow> \<exists>ks. sort_keys xs = Inr ks"
proof (induction xs)
  case Nil
  then show ?case by simp
next
  case (Cons t xs)
  then obtain ks where "sort_keys xs = Inr ks"
    by auto
  moreover from Cons.prems obtain r where "priority_rank (priority t) = Inr r"
    using priority_rank_total [of "priority t"] by auto
  ultimately show ?case
    by simp
qed

lemma sort_incomplete_set: "sort_incomplete xs = Inr ys \<Longrightarrow> set ys = set xs"
proof -
  assume a: "sort_incomplete xs = Inr ys"
  then obtain ks where ks: "sort_keys xs = Inr ks" and ys: "ys = map snd (sort_key fst (zip ks xs))"
    by (auto simp: sort_incomplete_def split: sum.splits)
  from sort_keys_length [OF ks] have "map snd (zip ks xs) = xs"
    by simp
  then have "set (map snd (zip ks xs)) = set xs"
    by simp
  then have "snd ` set (zip ks xs) = set xs"
    by (simp only: set_map)
  with ys show ?thesis
    by simp
qed

lemma sort_incomplete_total:
  "\<forall>t \<in> set xs. hashable (priority t) \<Longrightarrow> \<exists>ys. sort_incomplete xs = Inr ys"
  using sort_keys_total [of xs] by (auto simp: sort_incomplete_def)

lemma set_week_first_ids [simp]: "map id' (set_week_first i w ts) = map id' ts"
  by (induction ts) simp_all

lemma set_week_first_other:
  "t \<in> set (set_week_first i w ts) \<Longrightarrow> id' t \<noteq> i \<Longrightarrow> t \<in> set ts"
proof (induction ts)
  case Nil
  then show ?case by simp
next
  case (Cons a ts)
  show ?case
  proof (cases "id' a = i")
    case True
    with Cons.prems have "t = a\<lparr>week := w\<rparr> \<or> t \<in> set ts"
      by simp
    with Cons.prems(2) True show ?thesis
      by fastforce
  next
    case False
    with Cons.prems have "t = a \<or> t \<in> set (set_week_first i w ts)"
      by simp
    with Cons.IH Cons.prems(2) show ?thesis
      by fastforce
  qed
qed

lemma set_week_first_hit:
  "distinct (map id' ts) \<Longrightarrow> t \<in> set (set_week_first i w ts) \<Longrightarrow> id' t = i \<Longrightarrow> week t = w"
proof (induction ts)
  case Nil
  then show ?case by simp
next
  case (Cons a ts)
  show ?case
  proof (cases "id' a = i")
    case True
    with Cons.prems(2) have "t = a\<lparr>week := w\<rparr> \<or> t \<in> set ts"
      by simp
    moreover from Cons.prems(1) True have "i \<notin> id' ` set ts"
      by simp
    ultimately have "t = a\<lparr>week := w\<rparr>"
      using Cons.prems(3) by blast
    then show ?thesis
      by simp
  next
    case False
    with Cons.prems(2,3) have "t \<in> set (set_week_first i w ts)"
      by fastforce
    moreover from Cons.prems(1) have "distinct (map id' ts)"
      by simp
    ultimately show ?thesis
      using Cons.IH Cons.prems(3) by blast
  qed
qed

lemma set_week_first_origin:
  "t' \<in> set (set_week_first i w ts) \<Longrightarrow>
   \<exists>t \<in> set ts. id' t = id' t' \<and> completed t = completed t'"
proof (induction ts)
  case Nil
  then show ?case by simp
next
  case (Cons a ts)
  show ?case
  proof (cases "id' a = i")
    case True
    with Cons.prems have "t' = a\<lparr>week := w\<rparr> \<or> t' \<in> set ts"
      by simp
    then show ?thesis
    proof
      assume "t' = a\<lparr>week := w\<rparr>"
      then have "id' a = id' t' \<and> completed a = completed t'"
        by simp
      then show ?thesis
        by (meson list.set_intros(1))
    next
      assume "t' \<in> set ts"
      then show ?thesis
        by (intro bexI [of _ t']) simp_all
    qed
  next
    case False
    with Cons.prems have "t' = a \<or> t' \<in> set (set_week_first i w ts)"
      by simp
    then show ?thesis
    proof
      assume "t' = a"
      then show ?thesis
        by (intro bexI [of _ a]) simp_all
    next
      assume "t' \<in> set (set_week_first i w ts)"
      from Cons.IH [OF this] show ?thesis
        by (meson list.set_intros(2))
    qed
  qed
qed

lemma spread_ids [simp]: "map id' (spread k xs w c ts) = map id' ts"
  by (induction xs arbitrary: w c ts) (auto simp: Let_def)

lemma spread_other:
  "t' \<in> set (spread k xs w c ts) \<Longrightarrow> id' t' \<notin> id' ` set xs \<Longrightarrow> t' \<in> set ts"
proof (induction xs arbitrary: w c ts)
  case Nil
  then show ?case by simp
next
  case (Cons x xs)
  from Cons.prems(2) have nx: "id' t' \<noteq> id' x" and nxs: "id' t' \<notin> id' ` set xs"
    by auto
  show ?case
  proof (cases "\<exists>t \<in> set ts. id' t = id' x")
    case True
    let ?w = "if c \<ge> k \<and> w < 8 then w + 1 else w"
    let ?c = "if c \<ge> k \<and> w < 8 then 0 else c"
    from True Cons.prems(1)
    have "t' \<in> set (spread k xs ?w (?c + 1) (set_week_first (id' x) ?w ts))"
      by (simp add: Let_def)
    from Cons.IH [OF this nxs] have "t' \<in> set (set_week_first (id' x) ?w ts)" .
    from set_week_first_other [OF this nx] show ?thesis .
  next
    case False
    with Cons.prems(1) have "t' \<in> set (spread k xs w c ts)"
      by simp
    from Cons.IH [OF this nxs] show ?thesis .
  qed
qed

lemma spread_origin:
  "t' \<in> set (spread k xs w c ts) \<Longrightarrow> \<exists>t \<in> set ts. id' t = id' t' \<and> completed t = completed t'"
proof (induction xs arbitrary: w c ts)
  case Nil
  then show ?case by auto
next
  case (Cons x xs)
  show ?case
  proof (cases "\<exists>t \<in> set ts. id' t = id' x")
    case True
    let ?w = "if c \<ge> k \<and> w < 8 then w + 1 else w"
    let ?c = "if c \<ge> k \<and> w < 8 then 0 else c"
    from True Cons.prems(1)
    have "t' \<in> set (spread k xs ?w (?c + 1) (set_week_first (id' x) ?w ts))"
      by (simp add: Let_def)
    from Cons.IH [OF this] obtain t1 where
      t1: "t1 \<in> set (set_week_first (id' x) ?w ts)" "id' t1 = id' t'" "completed t1 = completed t'"
      by blast
    from set_week_first_origin [OF t1(1)] t1(2,3) show ?thesis
      by auto
  next
    case False
    with Cons.prems(1) have "t' \<in> set (spread k xs w c ts)"
      by simp
    from Cons.IH [OF this] show ?thesis .
  qed
qed

lemma spread_hit:
  "distinct (map id' ts) \<Longrightarrow> w \<le> 8 \<Longrightarrow> t' \<in> set (spread k xs w c ts) \<Longrightarrow>
   id' t' \<in> id' ` set xs \<Longrightarrow> w \<le> week t' \<and> week t' \<le> 8"
proof (induction xs arbitrary: w c ts)
  case Nil
  then show ?case by simp
next
  case (Cons x xs)
  show ?case
  proof (cases "\<exists>t \<in> set ts. id' t = id' x")
    case True
    let ?w = "if c \<ge> k \<and> w < 8 then w + 1 else w"
    let ?c = "if c \<ge> k \<and> w < 8 then 0 else c"
    let ?ts = "set_week_first (id' x) ?w ts"
    from Cons.prems(2) have w: "w \<le> ?w" "?w \<le> 8"
      by auto
    from Cons.prems(1) have d: "distinct (map id' ?ts)"
      by simp
    from True Cons.prems(3) have t': "t' \<in> set (spread k xs ?w (?c + 1) ?ts)"
      by (simp add: Let_def)
    show ?thesis
    proof (cases "id' t' \<in> id' ` set xs")
      case True
      from Cons.IH [OF d w(2) t' True] w(1) show ?thesis
        by linarith
    next
      case False
      with Cons.prems(4) have eq: "id' t' = id' x"
        by auto
      from spread_other [OF t' False] have "t' \<in> set ?ts" .
      from set_week_first_hit [OF Cons.prems(1) this eq] w show ?thesis
        by simp
    qed
  next
    case False
    with Cons.prems(3) have t': "t' \<in> set (spread k xs w c ts)"
      by simp
    then have "id' t' \<in> set (map id' (spread k xs w c ts))"
      by (simp del: spread_ids)
    then have "id' t' \<in> id' ` set ts"
      by simp
    with False have "id' t' \<noteq> id' x"
      by auto
    with Cons.prems(4) have "id' t' \<in> id' ` set xs"
      by auto
    from Cons.IH [OF Cons.prems(1,2) t' this] show ?thesis .
  qed
qed

lemma only_week_refl: "list_all2 (\<lambda>t t'. \<exists>w. t' = t\<lparr>week := w\<rparr>) ts (ts :: task list)"
proof (rule list_all2_refl)
  fix t :: task
  have "t = t\<lparr>week := week t\<rparr>"
    by simp
  then show "\<exists>w. t = t\<lparr>week := w\<rparr>" ..
qed

lemma only_week_trans:
  assumes "list_all2 (\<lambda>t t'. \<exists>w. t' = t\<lparr>week := w\<rparr>) xs ys"
    and "list_all2 (\<lambda>t t'. \<exists>w. t' = t\<lparr>week := w\<rparr>) ys zs"
  shows "list_all2 (\<lambda>t t'. \<exists>w. t' = t\<lparr>week := w\<rparr>) xs (zs :: task list)"
proof (rule list_all2_trans [OF _ assms])
  fix a b c :: task
  assume "\<exists>w. b = a\<lparr>week := w\<rparr>" and "\<exists>w. c = b\<lparr>week := w\<rparr>"
  then obtain w1 w2 where "b = a\<lparr>week := w1\<rparr>" and "c = b\<lparr>week := w2\<rparr>"
    by blast
  then have "c = a\<lparr>week := w2\<rparr>"
    by simp
  then show "\<exists>w. c = a\<lparr>week := w\<rparr>" ..
qed

lemma set_week_first_only_week:
  "list_all2 (\<lambda>t t'. \<exists>w. t' = t\<lparr>week := w\<rparr>) ts (set_week_first i w ts)"
proof (induction ts)
  case Nil
  then show ?case by simp
next
  case (Cons a ts)
  show ?case
  proof (cases "id' a = i")
    case True
    with only_week_refl [of ts] show ?thesis
      by auto
  next
    case False
    have "\<exists>w. a = a\<lparr>week := w\<rparr>"
      by (rule exI [of _ "week a"]) simp
    with False Cons.IH show ?thesis
      by simp
  qed
qed

lemma spread_only_week:
  "list_all2 (\<lambda>t t'. \<exists>w. t' = t\<lparr>week := w\<rparr>) ts (spread k xs w c ts)"
proof (induction xs arbitrary: w c ts)
  case Nil
  show ?case
    by (simp add: only_week_refl)
next
  case (Cons x xs)
  show ?case
  proof (cases "\<exists>t \<in> set ts. id' t = id' x")
    case True
    let ?w = "if c \<ge> k \<and> w < 8 then w + 1 else w"
    let ?c = "if c \<ge> k \<and> w < 8 then 0 else c"
    let ?ts = "set_week_first (id' x) ?w ts"
    from True have "spread k (x # xs) w c ts = spread k xs ?w (?c + 1) ?ts"
      by (simp add: Let_def)
    moreover have "list_all2 (\<lambda>t t'. \<exists>w. t' = t\<lparr>week := w\<rparr>) ts (spread k xs ?w (?c + 1) ?ts)"
      using set_week_first_only_week [of ts "id' x" ?w] Cons.IH [of ?ts ?w "?c + 1"]
      by (rule only_week_trans)
    ultimately show ?thesis
      by simp
  next
    case False
    with Cons.IH [of ts w c] show ?thesis
      by simp
  qed
qed

text \<open>
  C7, as amended. For a store whose task ids are distinct and whose incomplete tasks
  have hashable priorities (strings, in the data model), \<^verbatim>\<open>auto_adjust\<close> returns, with
  the current week in its response, and changes nothing of the store but weeks of
  incomplete tasks: task by task, in the order of the store, a completed task is left as
  it was and an incomplete task differs from its input at most in its week, which ends
  between the current week and 8. So no incomplete task ends below the current week and
  none above 8; and no task at all ends above 8 if no completed task was above 8 before.
\<close>

theorem auto_adjust_weeks:
  assumes dist: "distinct (map id' (tasks data))"
    and prio: "\<forall>t \<in> set (tasks data). \<not> completed t \<longrightarrow> hashable (priority t)"
  shows "\<exists>data'.
           auto_adjust now data = Inr (data', current_week_of now (project_start data)) \<and>
           data' = data\<lparr>tasks := tasks data'\<rparr> \<and>
           list_all2
             (\<lambda>t t'. if completed t then t' = t
                      else \<exists>w. t' = t\<lparr>week := w\<rparr> \<and>
                             current_week_of now (project_start data) \<le> w \<and> w \<le> 8)
             (tasks data) (tasks data') \<and>
           (\<forall>t' \<in> set (tasks data').
              \<not> completed t' \<longrightarrow>
                current_week_of now (project_start data) \<le> week t' \<and> week t' \<le> 8) \<and>
           ((\<forall>t \<in> set (tasks data). completed t \<longrightarrow> week t \<le> 8) \<longrightarrow>
              (\<forall>t' \<in> set (tasks data'). week t' \<le> 8))"
proof -
  define cw where "cw = current_week_of now (project_start data)"
  define pull :: "task \<Rightarrow> task" where
    "pull = (\<lambda>t. if \<not> completed t \<and> week t < cw then t\<lparr>week := cw\<rparr> else t)"
  define ts1 where "ts1 = map pull (tasks data)"
  define incomplete where "incomplete = filter (\<lambda>t. \<not> completed t \<and> week t \<ge> cw) ts1"
  define rel :: "task \<Rightarrow> task \<Rightarrow> bool" where
    "rel = (\<lambda>t t'. if completed t then t' = t
                    else \<exists>w. t' = t\<lparr>week := w\<rparr> \<and> cw \<le> w \<and> w \<le> 8)"
  have cw: "1 \<le> cw" "cw \<le> 8"
    using current_week_of_range [of now "project_start data"] by (simp_all add: cw_def)
  have cw_eq: "max 1 (min 8 ((now - project_start data) div 7 + 1)) = cw"
    by (simp add: cw_def current_week_of_def)
  have ids1: "map id' ts1 = map id' (tasks data)"
    by (simp add: ts1_def pull_def)
  have dist1: "distinct (map id' ts1)"
    using dist ids1 by simp
  have ts1_done: "t \<in> set (tasks data)" if "t \<in> set ts1" "completed t" for t
    using that by (auto simp: ts1_def pull_def split: if_splits)
  have ts1_open: "cw \<le> week t" if "t \<in> set ts1" "\<not> completed t" for t
    using that by (auto simp: ts1_def pull_def split: if_splits)
  have ts1_prio: "hashable (priority t)" if "t \<in> set ts1" "\<not> completed t" for t
    using that prio by (auto simp: ts1_def pull_def split: if_splits)
  have inc_set: "set incomplete = {t \<in> set ts1. \<not> completed t}"
    using ts1_open by (auto simp: incomplete_def)
  have pull_week: "list_all2 (\<lambda>t t'. \<exists>w. t' = t\<lparr>week := w\<rparr>) (tasks data) ts1"
    unfolding ts1_def list_all2_map2
  proof (rule list_all2_refl)
    fix t :: task
    have "pull t = t\<lparr>week := week (pull t)\<rparr>"
      by (simp add: pull_def)
    then show "\<exists>w. pull t = t\<lparr>week := w\<rparr>" ..
  qed
  have final: "\<exists>data'.
      auto_adjust now data = Inr (data', cw) \<and> data' = data\<lparr>tasks := tasks data'\<rparr> \<and>
      list_all2 rel (tasks data) (tasks data') \<and>
      (\<forall>t' \<in> set (tasks data'). \<not> completed t' \<longrightarrow> cw \<le> week t' \<and> week t' \<le> 8)"
    if res: "auto_adjust now data = Inr (data\<lparr>tasks := ts2\<rparr>, cw)"
      and only: "list_all2 (\<lambda>t t'. \<exists>w. t' = t\<lparr>week := w\<rparr>) (tasks data) ts2"
      and open2: "\<And>t'. t' \<in> set ts2 \<Longrightarrow> \<not> completed t' \<Longrightarrow> cw \<le> week t' \<and> week t' \<le> 8"
      and done2: "\<And>t'. t' \<in> set ts2 \<Longrightarrow> completed t' \<Longrightarrow> t' \<in> set (tasks data)"
    for ts2
  proof -
    have "list_all2 rel (tasks data) ts2"
      using only
    proof (rule list.rel_mono_strong)
      fix t t'
      assume t: "t \<in> set (tasks data)" and t': "t' \<in> set ts2"
        and "\<exists>w. t' = t\<lparr>week := w\<rparr>"
      then have eq: "t' = t\<lparr>week := week t'\<rparr>"
        by auto
      then have same: "id' t' = id' t" "completed t' = completed t"
        by (metis task.select_convs(1) task.surjective task.update_convs(3),
            metis task.select_convs(4) task.surjective task.update_convs(3))
      show "rel t t'"
      proof (cases "completed t")
        case True
        with same done2 [OF t'] have "t' \<in> set (tasks data)"
          by simp
        with dist t same(1) have "t' = t"
          by (metis distinct_map inj_onD)
        with True show ?thesis
          by (simp add: rel_def)
      next
        case False
        with same open2 [OF t'] have "cw \<le> week t' \<and> week t' \<le> 8"
          by simp
        with False eq show ?thesis
          unfolding rel_def by auto
      qed
    qed
    with res open2 show ?thesis
      by (intro exI [of _ "data\<lparr>tasks := ts2\<rparr>"]) simp
  qed
  have "\<exists>data'.
      auto_adjust now data = Inr (data', cw) \<and> data' = data\<lparr>tasks := tasks data'\<rparr> \<and>
      list_all2 rel (tasks data) (tasks data') \<and>
      (\<forall>t' \<in> set (tasks data'). \<not> completed t' \<longrightarrow> cw \<le> week t' \<and> week t' \<le> 8)"
  proof (cases "incomplete = []")
    case True
    then have res: "auto_adjust now data = Inr (data\<lparr>tasks := ts1\<rparr>, cw)"
      unfolding auto_adjust_def Let_def cw_eq
      by (simp add: incomplete_def ts1_def pull_def)
    from True inc_set have all_done: "\<forall>t \<in> set ts1. completed t"
      by auto
    show ?thesis
      using res pull_week
    proof (rule final)
      fix t' assume "t' \<in> set ts1" "\<not> completed t'"
      with all_done show "cw \<le> week t' \<and> week t' \<le> 8"
        by blast
    next
      fix t' assume "t' \<in> set ts1" "completed t'"
      then show "t' \<in> set (tasks data)"
        by (rule ts1_done)
    qed
  next
    case False
    have "\<forall>t \<in> set incomplete. hashable (priority t)"
      using inc_set ts1_prio by auto
    from sort_incomplete_total [OF this] obtain sorted_tasks
      where srt: "sort_incomplete incomplete = Inr sorted_tasks"
      by blast
    define k where "k = max 3 (int (length incomplete) div (8 - cw + 1))"
    define ts2 where "ts2 = spread k sorted_tasks cw 0 ts1"
    from False cw srt have res: "auto_adjust now data = Inr (data\<lparr>tasks := ts2\<rparr>, cw)"
      unfolding auto_adjust_def Let_def cw_eq
      by (simp add: incomplete_def [symmetric] ts1_def [symmetric] pull_def [symmetric]
            k_def ts2_def)
    have sset: "set sorted_tasks = {t \<in> set ts1. \<not> completed t}"
      using sort_incomplete_set [OF srt] inc_set by simp
    have only: "list_all2 (\<lambda>t t'. \<exists>w. t' = t\<lparr>week := w\<rparr>) (tasks data) ts2"
      unfolding ts2_def using pull_week spread_only_week by (rule only_week_trans)
    show ?thesis
      using res only
    proof (rule final)
      fix t' assume t': "t' \<in> set ts2" and nd: "\<not> completed t'"
      from spread_origin [OF t' [unfolded ts2_def]] obtain t
        where t: "t \<in> set ts1" "id' t = id' t'" "completed t = completed t'"
        by blast
      with nd sset have "t \<in> set sorted_tasks"
        by simp
      with t(2) have "id' t' \<in> id' ` set sorted_tasks"
        by (metis imageI)
      from spread_hit [OF dist1 cw(2) t' [unfolded ts2_def] this]
      show "cw \<le> week t' \<and> week t' \<le> 8" .
    next
      fix t' assume t': "t' \<in> set ts2" and dn: "completed t'"
      from spread_origin [OF t' [unfolded ts2_def]] obtain t
        where t: "t \<in> set ts1" "id' t = id' t'" "completed t = completed t'"
        by blast
      have "id' t' \<notin> id' ` set sorted_tasks"
      proof
        assume "id' t' \<in> id' ` set sorted_tasks"
        then obtain s where s: "s \<in> set sorted_tasks" "id' s = id' t'"
          by auto
        with sset have s1: "s \<in> set ts1" "\<not> completed s"
          by auto
        from dist1 s1(1) t(1) s(2) t(2) have "s = t"
          by (metis distinct_map inj_onD)
        with s1(2) t(3) dn show False
          by simp
      qed
      from spread_other [OF t' [unfolded ts2_def] this] have "t' \<in> set ts1" .
      from ts1_done [OF this dn] show "t' \<in> set (tasks data)" .
    qed
  qed
  then obtain data' where d: "auto_adjust now data = Inr (data', cw)"
    "data' = data\<lparr>tasks := tasks data'\<rparr>" "list_all2 rel (tasks data) (tasks data')"
    "\<forall>t' \<in> set (tasks data'). \<not> completed t' \<longrightarrow> cw \<le> week t' \<and> week t' \<le> 8"
    by blast
  have cap: "\<forall>t' \<in> set (tasks data'). week t' \<le> 8"
    if old: "\<forall>t \<in> set (tasks data). completed t \<longrightarrow> week t \<le> 8"
  proof
    fix t' assume t': "t' \<in> set (tasks data')"
    show "week t' \<le> 8"
    proof (cases "completed t'")
      case False
      with d(4) t' show ?thesis by blast
    next
      case True
      from d(3) t' obtain t where t: "t \<in> set (tasks data)" "rel t t'"
        by (metis in_set_conv_nth list_all2_conv_all_nth)
      with True have "t' = t"
        by (auto simp: rel_def split: if_splits)
      with t(1) True old show ?thesis
        by blast
    qed
  qed
  from d cap show ?thesis
    unfolding cw_def rel_def by blast
qed

theorem auto_adjust_weeks_witness:
  "auto_adjust 20487
     (get_default_data
        \<lparr>tasks := [default_tasks ! 0, (default_tasks ! 1)\<lparr>completed := True\<rparr>, default_tasks ! 2,
                   default_tasks ! 3, default_tasks ! 4]\<rparr>) =
     Inr (get_default_data
            \<lparr>tasks := [(default_tasks ! 0)\<lparr>week := 3\<rparr>, (default_tasks ! 1)\<lparr>completed := True\<rparr>,
                       (default_tasks ! 2)\<lparr>week := 3\<rparr>, (default_tasks ! 3)\<lparr>week := 3\<rparr>,
                       (default_tasks ! 4)\<lparr>week := 4\<rparr>]\<rparr>,
          3)"
proof -
  let ?T = "[default_tasks ! 0, (default_tasks ! 1)\<lparr>completed := True\<rparr>, default_tasks ! 2,
             default_tasks ! 3, default_tasks ! 4]"
  let ?data = "get_default_data\<lparr>tasks := ?T\<rparr>"
  let ?T1 = "[(default_tasks ! 0)\<lparr>week := 3\<rparr>, (default_tasks ! 1)\<lparr>completed := True\<rparr>,
              (default_tasks ! 2)\<lparr>week := 3\<rparr>, (default_tasks ! 3)\<lparr>week := 3\<rparr>,
              (default_tasks ! 4)\<lparr>week := 3\<rparr>]"
  let ?I = "[(default_tasks ! 0)\<lparr>week := 3\<rparr>, (default_tasks ! 2)\<lparr>week := 3\<rparr>,
             (default_tasks ! 3)\<lparr>week := 3\<rparr>, (default_tasks ! 4)\<lparr>week := 3\<rparr>]"
  let ?S = "[(default_tasks ! 2)\<lparr>week := 3\<rparr>, (default_tasks ! 3)\<lparr>week := 3\<rparr>,
             (default_tasks ! 0)\<lparr>week := 3\<rparr>, (default_tasks ! 4)\<lparr>week := 3\<rparr>]"
  let ?T2 = "[(default_tasks ! 0)\<lparr>week := 3\<rparr>, (default_tasks ! 1)\<lparr>completed := True\<rparr>,
              (default_tasks ! 2)\<lparr>week := 3\<rparr>, (default_tasks ! 3)\<lparr>week := 3\<rparr>,
              (default_tasks ! 4)\<lparr>week := 4\<rparr>]"
  have dist: "distinct (map id' (tasks ?data))"
    by (simp add: default_tasks_def)
  have prio: "\<forall>t \<in> set (tasks ?data). \<not> completed t \<longrightarrow> hashable (priority t)"
    by (simp add: default_tasks_def)
  have cw: "max 1 (min 8 ((20487 - project_start ?data) div 7 + 1)) = 3"
    by (simp add: get_default_data_def)
  have ts1: "map (\<lambda>t. if \<not> completed t \<and> week t < 3 then t\<lparr>week := 3\<rparr> else t) (tasks ?data) = ?T1"
    by (simp add: default_tasks_def)
  have inc: "filter (\<lambda>t. \<not> completed t \<and> 3 \<le> week t) ?T1 = ?I"
    by (simp add: default_tasks_def)
  have srt: "sort_incomplete ?I = Inr ?S"
    by (simp add: default_tasks_def priority_order_def sort_incomplete_def)
  have len: "max 3 (int (length ?I) div (8 - 3 + 1)) = 3"
    by simp
  have spr: "spread 3 ?S 3 0 ?T1 = ?T2"
    by (simp add: default_tasks_def)
  have run: "auto_adjust 20487 ?data = Inr (get_default_data\<lparr>tasks := ?T2\<rparr>, 3)"
    unfolding auto_adjust_def Let_def cw ts1 inc srt len sum.case spr by simp
  from auto_adjust_weeks [OF dist prio, of 20487] obtain data' where
    ret: "auto_adjust 20487 ?data = Inr (data', current_week_of 20487 (project_start ?data))"
    by blast
  from ret run have "data' = get_default_data\<lparr>tasks := ?T2\<rparr>"
    by simp
  with ret run show ?thesis
    by simp
qed

text \<open>
  Without these hypotheses the claim fails. A completed task of week 12 is left at week
  12, above the cap. And when a completed task and an incomplete one of week 9 share an
  id, the redistribution finds the completed task first: it is moved to the current week
  and the incomplete one stays at week 9.
\<close>

theorem auto_adjust_cap_counterexample:
  "auto_adjust 20487 (get_default_data\<lparr>tasks := [mag_quant\<lparr>completed := True, week := 12\<rparr>]\<rparr>) =
     Inr (get_default_data\<lparr>tasks := [mag_quant\<lparr>completed := True, week := 12\<rparr>]\<rparr>, 3) \<and>
   auto_adjust 20487
       (get_default_data\<lparr>tasks := [mag_quant\<lparr>completed := True\<rparr>, mag_quant\<lparr>week := 9\<rparr>]\<rparr>) =
     Inr (get_default_data
            \<lparr>tasks := [mag_quant\<lparr>completed := True, week := 3\<rparr>, mag_quant\<lparr>week := 9\<rparr>]\<rparr>,
          3)"
proof -
  let ?d1 = "get_default_data\<lparr>tasks := [mag_quant\<lparr>completed := True, week := 12\<rparr>]\<rparr>"
  let ?d2 = "get_default_data\<lparr>tasks := [mag_quant\<lparr>completed := True\<rparr>, mag_quant\<lparr>week := 9\<rparr>]\<rparr>"
  let ?T = "[mag_quant\<lparr>completed := True\<rparr>, mag_quant\<lparr>week := 9\<rparr>]"
  have cw1: "max 1 (min 8 ((20487 - project_start ?d1) div 7 + 1)) = 3"
    by (simp add: get_default_data_def)
  have cw2: "max 1 (min 8 ((20487 - project_start ?d2) div 7 + 1)) = 3"
    by (simp add: get_default_data_def)
  have one: "auto_adjust 20487 ?d1 = Inr (?d1, 3)"
    unfolding auto_adjust_def Let_def cw1 by (simp add: mag_quant_def)
  have ts1: "map (\<lambda>t. if \<not> completed t \<and> week t < 3 then t\<lparr>week := 3\<rparr> else t) (tasks ?d2) = ?T"
    by (simp add: mag_quant_def)
  have inc: "filter (\<lambda>t. \<not> completed t \<and> 3 \<le> week t) ?T = [mag_quant\<lparr>week := 9\<rparr>]"
    by (simp add: mag_quant_def)
  have srt: "sort_incomplete [mag_quant\<lparr>week := 9\<rparr>] = Inr [mag_quant\<lparr>week := 9\<rparr>]"
    by (simp add: mag_quant_def priority_order_def sort_incomplete_def)
  have len: "max 3 (int (length [mag_quant\<lparr>week := 9\<rparr>]) div (8 - 3 + 1)) = 3"
    by simp
  have spr: "spread 3 [mag_quant\<lparr>week := 9\<rparr>] 3 0 ?T =
      [mag_quant\<lparr>completed := True, week := 3\<rparr>, mag_quant\<lparr>week := 9\<rparr>]"
    by (simp add: mag_quant_def)
  have two: "auto_adjust 20487 ?d2 =
      Inr (get_default_data
             \<lparr>tasks := [mag_quant\<lparr>completed := True, week := 3\<rparr>, mag_quant\<lparr>week := 9\<rparr>]\<rparr>,
           3)"
    unfolding auto_adjust_def Let_def cw2 ts1 inc srt len sum.case spr by simp
  from one two show ?thesis
    by simp
qed

end
